theory Spec2Isabelle
  imports Complex_Main "HOL-Library.Word" "HOL-Library.Multiset"
begin

text \<open>
  MySmartCart collects the price catalogs that supermarket chains publish, decodes them
  into price rows and aggregates the rows by day. This theory embeds the programs of the
  repository in HOL: the normaliser of product names and the resolver of store ids as
  functions on strings, the collectors, the decoder and the aggregator as functions on the
  tables they read and write, with everything that the network, the object store and the
  database decide given as parameters. The second half states and proves properties of
  these functions.
\<close>

section \<open>JavaScript strings and the regular expressions of the scrapers\<close>

text \<open>
  A JavaScript string is a sequence of UTF-16 code units. The regular expressions of the
  repository carry no \<open>u\<close> flag, so they match code unit by code unit; the Hebrew unit
  words of the normaliser are single code units each (U+05D0 .. U+05EA).
\<close>

type_synonym jschar = "16 word"
type_synonym jsstring = "jschar list"

definition js :: "string \<Rightarrow> jsstring" where
  "js s = map of_char s"

text \<open>\<open>\d\<close> is \<open>[0-9]\<close>; \<open>\s\<close> is the white space and line terminator set of ECMAScript,
  which is also the set that \<open>String.prototype.trim\<close> strips.\<close>

definition is_digit :: "jschar \<Rightarrow> bool" where
  "is_digit c \<longleftrightarrow> 0x30 \<le> c \<and> c \<le> 0x39"

definition is_space :: "jschar \<Rightarrow> bool" where
  "is_space c \<longleftrightarrow>
     c = 0x09 \<or> c = 0x0A \<or> c = 0x0B \<or> c = 0x0C \<or> c = 0x0D \<or> c = 0x20 \<or> c = 0xA0 \<or>
     c = 0x1680 \<or> (0x2000 \<le> c \<and> c \<le> 0x200A) \<or> c = 0x2028 \<or> c = 0x2029 \<or>
     c = 0x202F \<or> c = 0x205F \<or> c = 0x3000 \<or> c = 0xFEFF"

text \<open>
  The \<open>i\<close> flag compares the upper-case forms of pattern and input code unit. Every
  literal of the repository's patterns is an ASCII character or a Hebrew letter, and without
  the \<open>u\<close> flag no code unit outside ASCII is folded onto an ASCII one, so folding
  \<open>a..z\<close> onto \<open>A..Z\<close> is all the flag does on these patterns.
\<close>

definition upper :: "jschar \<Rightarrow> jschar" where
  "upper c = (if 0x61 \<le> c \<and> c \<le> 0x7A then c - 0x20 else c)"

text \<open>A matcher is tried at the head of the remaining input and returns what is left after
  the match. \<open>match_lit\<close> is a literal under the \<open>i\<close> flag, \<open>match_alt\<close> an alternation
  of literals, tried in the order written.\<close>

fun match_lit :: "jsstring \<Rightarrow> jsstring \<Rightarrow> jsstring option" where
  "match_lit [] s = Some s"
| "match_lit (p # ps) [] = None"
| "match_lit (p # ps) (c # cs) = (if upper c = upper p then match_lit ps cs else None)"

fun match_alt :: "jsstring list \<Rightarrow> jsstring \<Rightarrow> jsstring option" where
  "match_alt [] s = None"
| "match_alt (p # ps) s = (case match_lit p s of Some r \<Rightarrow> Some r | None \<Rightarrow> match_alt ps s)"

text \<open>
  \<open>s.replace(/re/g, rep)\<close>: the input is scanned from the left; where the expression
  matches, the match is replaced and the scan goes on after it, elsewhere the code unit is
  kept. (An empty match would be replaced and the scan moved one code unit on; none of the
  expressions below matches the empty string.)
\<close>

function replace_g :: "(jsstring \<Rightarrow> jsstring option) \<Rightarrow> jsstring \<Rightarrow> jsstring \<Rightarrow> jsstring" where
  "replace_g m rep [] = (case m [] of Some r \<Rightarrow> rep | None \<Rightarrow> [])"
| "replace_g m rep (c # cs) =
     (case m (c # cs) of
        None \<Rightarrow> c # replace_g m rep cs
      | Some r \<Rightarrow>
          if length r < length (c # cs) then rep @ replace_g m rep r
          else rep @ c # replace_g m rep cs)"
  by pat_completeness auto
termination
  by (relation "measure (\<lambda>(m, rep, s). length s)") auto

declare replace_g.simps [simp del]

definition trim :: "jsstring \<Rightarrow> jsstring" where
  "trim s = rev (dropWhile is_space (rev (dropWhile is_space s)))"

subsection \<open>The canonical name normaliser (parse\_yohananof.ts)\<close>

text \<open>
  The unit vocabulary of the first expression, in the order of the alternation:
  the Hebrew words for gram (three spellings), millilitre (two), litre (two), kilogram
  (two), unit (three), milligram (two), then \<open>ml gr kg l g\<close>.
\<close>

definition unit_words :: "jsstring list" where
  "unit_words =
    [[0x5D2, 0x5E8, 0x5DD], [0x5D2, 0x5E8], [0x5D2],
     [0x5DE, 0x22, 0x5DC], [0x5DE, 0x5DC],
     [0x5DC, 0x5D9, 0x5D8, 0x5E8], [0x5DC],
     [0x5E7, 0x22, 0x5D2], [0x5E7, 0x5D2],
     [0x5D9, 0x5D7, 0x27], [0x5D9, 0x5D7, 0x5D9, 0x5D3, 0x5D4],
     [0x5D9, 0x5D7, 0x5D9, 0x5D3, 0x5D5, 0x5EA],
     [0x5DE, 0x22, 0x5D2], [0x5DE, 0x5D2],
     js ''ml'', js ''gr'', js ''kg'', js ''l'', js ''g'']"

text \<open>
  \<open>/\d+(\.\d+)?\s*(unit words)/gi\<close> at the head of \<open>s\<close>. Each quantifier is greedy and is
  followed by something that cannot start with a code unit of the quantified class (no unit
  word starts with a digit, a dot or white space), so giving back a code unit never lets
  the rest match: the expression matches exactly when the longest digit run, the decimal
  part if there is one, and the longest white space run are followed by a unit word.
\<close>

definition match_qty_unit :: "jsstring \<Rightarrow> jsstring option" where
  "match_qty_unit s =
     (if takeWhile is_digit s = [] then None
      else
        let r1 = dropWhile is_digit s;
            r2 = (case r1 of
                    d # t \<Rightarrow>
                      if d = 0x2E \<and> takeWhile is_digit t \<noteq> [] then dropWhile is_digit t else r1
                  | [] \<Rightarrow> r1)
        in match_alt unit_words (dropWhile is_space r2))"

text \<open>\<open>/\s*[xX\<times>]\s*\d+/g\<close>, the multiplication sign being U+00D7.\<close>

definition match_multiplier :: "jsstring \<Rightarrow> jsstring option" where
  "match_multiplier s =
     (case dropWhile is_space s of
        [] \<Rightarrow> None
      | c # t \<Rightarrow>
          if c = 0x78 \<or> c = 0x58 \<or> c = 0xD7 then
            (let u = dropWhile is_space t in
             if takeWhile is_digit u = [] then None else Some (dropWhile is_digit u))
          else None)"

text \<open>\<open>/\d+%/g\<close>.\<close>

definition match_percent :: "jsstring \<Rightarrow> jsstring option" where
  "match_percent s =
     (if takeWhile is_digit s = [] then None
      else case dropWhile is_digit s of
             [] \<Rightarrow> None
           | c # t \<Rightarrow> if c = 0x25 then Some t else None)"

text \<open>\<open>/[()[\]{}]/g\<close>.\<close>

definition is_bracket :: "jschar \<Rightarrow> bool" where
  "is_bracket c \<longleftrightarrow> c = 0x28 \<or> c = 0x29 \<or> c = 0x5B \<or> c = 0x5D \<or> c = 0x7B \<or> c = 0x7D"

definition match_bracket :: "jsstring \<Rightarrow> jsstring option" where
  "match_bracket s = (case s of [] \<Rightarrow> None | c # t \<Rightarrow> if is_bracket c then Some t else None)"

text \<open>\<open>/\s+/g\<close>.\<close>

definition match_spaces :: "jsstring \<Rightarrow> jsstring option" where
  "match_spaces s = (if takeWhile is_space s = [] then None else Some (dropWhile is_space s))"

definition normalizeCanonical :: "jsstring \<Rightarrow> jsstring" where
  "normalizeCanonical name =
     trim (replace_g match_spaces [0x20]
       (replace_g match_bracket []
         (replace_g match_percent []
           (replace_g match_multiplier []
             (replace_g match_qty_unit [] name)))))"


subsection \<open>Patterns over file names\<close>

text \<open>
  The file name patterns are sequences of literals (under the \<open>i\<close> flag) and digit runs
  \<open>\d+\<close>, \<open>\d{n}\<close>, \<open>[0-9]{1,4}\<close>, some of them capture groups. In all of them a digit run
  is followed by a literal that starts with \<open>-\<close> or \<open>.\<close> (or by the end anchor), so only
  the whole run of digits can lead to a match: a run that is too short or too long fails.
  \<open>match_seq\<close> returns the captures in order and the rest of the input.
\<close>

datatype atom =
    Lit jsstring
  | Digits nat "nat option"
  | Group nat "nat option"

definition run_ok :: "nat \<Rightarrow> nat option \<Rightarrow> jsstring \<Rightarrow> bool" where
  "run_ok lo hi ds \<longleftrightarrow> lo \<le> length ds \<and> (case hi of None \<Rightarrow> True | Some h \<Rightarrow> length ds \<le> h)"

fun match_seq :: "atom list \<Rightarrow> jsstring list \<Rightarrow> jsstring \<Rightarrow> (jsstring list \<times> jsstring) option" where
  "match_seq [] caps s = Some (caps, s)"
| "match_seq (Lit l # as) caps s =
     (case match_lit l s of None \<Rightarrow> None | Some r \<Rightarrow> match_seq as caps r)"
| "match_seq (Digits lo hi # as) caps s =
     (if run_ok lo hi (takeWhile is_digit s) then match_seq as caps (dropWhile is_digit s)
      else None)"
| "match_seq (Group lo hi # as) caps s =
     (if run_ok lo hi (takeWhile is_digit s)
      then match_seq as (caps @ [takeWhile is_digit s]) (dropWhile is_digit s)
      else None)"

text \<open>\<open>str.match(re)\<close> without the \<open>g\<close> flag: the leftmost position where the expression
  matches; the result is the list of captures.\<close>

fun find_first :: "(jsstring \<Rightarrow> 'a option) \<Rightarrow> jsstring \<Rightarrow> 'a option" where
  "find_first m [] = m []"
| "find_first m (c # cs) = (case m (c # cs) of Some x \<Rightarrow> Some x | None \<Rightarrow> find_first m cs)"

definition search :: "atom list \<Rightarrow> jsstring \<Rightarrow> jsstring list option" where
  "search p s = find_first (\<lambda>t. map_option fst (match_seq p [] t)) s"

definition padStart :: "nat \<Rightarrow> jschar \<Rightarrow> jsstring \<Rightarrow> jsstring" where
  "padStart n c s = replicate (n - length s) c @ s"

subsection \<open>Filename grammar resolver\<close>

text \<open>The collector of Yohananof that downloads over HTTP with a basic authorisation
  header: \<open>/PriceFull\d+-\d+-([0-9]{1,4})-\d{12}\.gz/i\<close>, then
  \<open>/PriceFull\d+-([0-9]{1,4})-\d{12}\.gz/i\<close>.\<close>

definition yohananof_grammars :: "atom list list" where
  "yohananof_grammars =
    [[Lit (js ''PriceFull''), Digits 1 None, Lit (js ''-''), Digits 1 None, Lit (js ''-''),
      Group 1 (Some 4), Lit (js ''-''), Digits 12 (Some 12), Lit (js ''.gz'')],
     [Lit (js ''PriceFull''), Digits 1 None, Lit (js ''-''),
      Group 1 (Some 4), Lit (js ''-''), Digits 12 (Some 12), Lit (js ''.gz'')]]"

text \<open>The collector of Shufersal: \<open>/Price\d+-\d+-([0-9]{1,4})-\d{8}-\d{6}\.gz/i\<close>,
  \<open>/Price\d+-([0-9]{1,4})-\d{12}\.gz/i\<close>, and the same two with \<open>PriceFull\<close>.\<close>

definition shufersal_grammars :: "atom list list" where
  "shufersal_grammars =
    [[Lit (js ''Price''), Digits 1 None, Lit (js ''-''), Digits 1 None, Lit (js ''-''),
      Group 1 (Some 4), Lit (js ''-''), Digits 8 (Some 8), Lit (js ''-''), Digits 6 (Some 6),
      Lit (js ''.gz'')],
     [Lit (js ''Price''), Digits 1 None, Lit (js ''-''),
      Group 1 (Some 4), Lit (js ''-''), Digits 12 (Some 12), Lit (js ''.gz'')],
     [Lit (js ''PriceFull''), Digits 1 None, Lit (js ''-''), Digits 1 None, Lit (js ''-''),
      Group 1 (Some 4), Lit (js ''-''), Digits 8 (Some 8), Lit (js ''-''), Digits 6 (Some 6),
      Lit (js ''.gz'')],
     [Lit (js ''PriceFull''), Digits 1 None, Lit (js ''-''),
      Group 1 (Some 4), Lit (js ''-''), Digits 12 (Some 12), Lit (js ''.gz'')]]"

text \<open>The grammars are tried in order; the first that matches gives \<open>m[1]\<close>.\<close>

fun first_capture :: "atom list list \<Rightarrow> jsstring \<Rightarrow> jsstring option" where
  "first_capture [] s = None"
| "first_capture (g # gs) s =
     (case search g s of Some caps \<Rightarrow> Some (caps ! 0) | None \<Rightarrow> first_capture gs s)"

definition extractStoreIdFromFilename :: "atom list list \<Rightarrow> jsstring \<Rightarrow> jsstring option" where
  "extractStoreIdFromFilename grammars nameOrUrl =
     (case first_capture grammars nameOrUrl of
        Some m1 \<Rightarrow> Some (padStart 3 0x30 m1)
      | None \<Rightarrow> None)"

definition extractStoreIdFromFilename_yohananof :: "jsstring \<Rightarrow> jsstring option" where
  "extractStoreIdFromFilename_yohananof = extractStoreIdFromFilename yohananof_grammars"

definition extractStoreIdFromFilename_shufersal :: "jsstring \<Rightarrow> jsstring option" where
  "extractStoreIdFromFilename_shufersal = extractStoreIdFromFilename shufersal_grammars"


section \<open>The tables\<close>

type_synonym bytes = "8 word list"

text \<open>
  A JavaScript number is a finite value, NaN or an infinity. The programs test numbers for
  finiteness and store them; they do no arithmetic on them.
\<close>

datatype jsnum = Finite rat | NaN | PosInf | NegInf

definition isFinite :: "jsnum \<Rightarrow> bool" where
  "isFinite n = (case n of Finite q \<Rightarrow> True | _ \<Rightarrow> False)"

datatype status = Downloaded | Failed | Skipped | Parsed

text \<open>A row of \<open>raw_files\<close>, the ledger of download attempts. The database assigns \<open>id\<close>;
  no program of the repository ever sends one.\<close>

record raw_file =
  file_id :: nat
  chain :: jsstring
  store_id :: "jsstring option"
  file_url :: jsstring
  storage_path :: "jsstring option"
  sha256 :: "jsstring option"
  fetched_at :: nat
  status :: status
  error :: "jsstring option"

text \<open>A row of \<open>prices\<close> as the decoder builds it (\<open>PriceRow\<close>).\<close>

record price_row =
  raw_file_id :: nat
  row_chain :: jsstring
  sub_chain_id :: "jsstring option"
  row_store_id :: "jsstring option"
  bikoret_no :: "jsnum option"
  item_code :: "jsstring option"
  barcode :: "jsstring option"
  item_name :: jsstring
  canonical_key :: "jsstring option"
  price :: jsnum
  unit_qty :: "jsnum option"
  unit_of_measure :: "jsstring option"
  price_update_time :: "jsstring option"
  last_sale_datetime :: "jsstring option"
  is_weighted :: "bool option"
  qty_in_package :: "jsnum option"

record world =
  raw_files :: "raw_file list"
  prices :: "price_row list"
  requested :: "jsstring list"

text \<open>\<open>.update({status, error}).eq("id", id)\<close> and \<open>.update({store_id}).eq("id", id)\<close>. The
  programs never look at the result of an update.\<close>

definition update_status :: "nat \<Rightarrow> status \<Rightarrow> jsstring option \<Rightarrow> world \<Rightarrow> world" where
  "update_status fid st err w =
     w\<lparr>raw_files := map (\<lambda>r. if file_id r = fid then r\<lparr>status := st, error := err\<rparr> else r)
                        (raw_files w)\<rparr>"

definition update_store_id :: "nat \<Rightarrow> jsstring \<Rightarrow> world \<Rightarrow> world" where
  "update_store_id fid sid w =
     w\<lparr>raw_files := map (\<lambda>r. if file_id r = fid then r\<lparr>store_id := Some sid\<rparr> else r)
                        (raw_files w)\<rparr>"

text \<open>\<open>.upsert(chunk, {onConflict: "raw_file_id,item_code"})\<close>: a row whose key is in the
  table replaces the row there, any other row is added.\<close>

definition same_price_key :: "price_row \<Rightarrow> price_row \<Rightarrow> bool" where
  "same_price_key a b \<longleftrightarrow> raw_file_id a = raw_file_id b \<and> item_code a = item_code b"

definition upsert_price :: "price_row list \<Rightarrow> price_row \<Rightarrow> price_row list" where
  "upsert_price tbl r =
     (if list_ex (same_price_key r) tbl then map (\<lambda>x. if same_price_key r x then r else x) tbl
      else tbl @ [r])"

definition upsert_prices :: "price_row list \<Rightarrow> price_row list \<Rightarrow> price_row list" where
  "upsert_prices chunk tbl = foldl upsert_price tbl chunk"

section \<open>The catalog decoder (parse\_yohananof.ts)\<close>

text \<open>
  What the XML parser hands over. The decoder reads a field of an element only through
  \<open>x == null\<close>, \<open>x ?? ""\<close>, \<open>String(x)\<close> and \<open>Number(x)\<close>, so a field that is there is
  represented by its two conversions, whatever kind of value it is; the parser yields
  \<open>undefined\<close> for a field that is not there and never \<open>null\<close>.
\<close>

datatype xmlval = Absent | Val jsstring jsnum

fun String_of :: "xmlval \<Rightarrow> jsstring" where
  "String_of Absent = js ''undefined''"
| "String_of (Val s n) = s"

fun Number_of :: "xmlval \<Rightarrow> jsnum" where
  "Number_of Absent = NaN"
| "Number_of (Val s n) = n"

text \<open>\<open>a ?? b\<close>.\<close>

fun nullish :: "xmlval \<Rightarrow> xmlval \<Rightarrow> xmlval" where
  "nullish Absent b = b"
| "nullish a b = a"

record item =
  ItemName :: xmlval
  ItemPrice :: xmlval
  ItemCode :: xmlval
  Quantity :: xmlval
  UnitOfMeasure :: xmlval
  PriceUpdateTime :: xmlval
  LastSaleDateTime :: xmlval
  bIsWeighted :: xmlval
  QtyInPackage :: xmlval

text \<open>\<open>root?.Items?.Item\<close> is nothing (or another falsy value), one element, or an array of
  elements; \<open>toArray\<close> makes a list of it. An element that is not an object has no field.\<close>

datatype item_node = NoItem | OneItem item | ItemArray "item list"

fun toArray :: "item_node \<Rightarrow> item list" where
  "toArray NoItem = []"
| "toArray (OneItem x) = [x]"
| "toArray (ItemArray xs) = xs"

text \<open>The root element. \<open>ChainID\<close> and \<open>ChainId\<close> are read for the log line only.\<close>

record xml_root =
  SubChainID :: xmlval
  SubChainId :: xmlval
  StoreID :: xmlval
  StoreId :: xmlval
  BikoretNo :: xmlval
  Items_Item :: item_node

text \<open>\<open>doc.root\<close> and \<open>doc.Root\<close>: not there, there but falsy (an empty element is the empty
  string), or an element.\<close>

datatype root_node = NoRoot | FalsyRoot | Root xml_root

record xml_doc =
  root_lc :: root_node
  root_uc :: root_node

text \<open>
  What the decoder cannot decide by itself: whether the first query fails, what the object
  store returns for the file with a given id (an error message or the bytes), what
  \<open>pako.ungzip\<close>, the UTF-8 decoder and the XML parser make of the bytes (\<open>None\<close> when one of
  them throws), and whether the upsert of the batch of a file that starts at a given index
  fails, with which message.
\<close>

record decoder_env =
  select_error :: "jsstring option"
  storage_download :: "nat \<Rightarrow> jsstring \<Rightarrow> jsstring + bytes"
  read_xml :: "bytes \<Rightarrow> xml_doc option"
  upsert_error :: "nat \<Rightarrow> nat \<Rightarrow> jsstring option"

definition CHAIN_parse :: jsstring where
  "CHAIN_parse = js ''yohananof''"

definition BATCH :: nat where
  "BATCH = 500"

text \<open>\<open>buf.length > 2 && buf[0] === 0x1f && buf[1] === 0x8b\<close>, the test of the decoder and of
  \<open>isGzip\<close> in the collector.\<close>

definition isGzip :: "bytes \<Rightarrow> bool" where
  "isGzip buf \<longleftrightarrow> length buf > 2 \<and> buf ! 0 = 0x1F \<and> buf ! 1 = 0x8B"

text \<open>\<open>/^\d{8,14}$/.test(itemCode)\<close>.\<close>

definition barcode_shaped :: "jsstring \<Rightarrow> bool" where
  "barcode_shaped s \<longleftrightarrow> list_all is_digit s \<and> 8 \<le> length s \<and> length s \<le> 14"

text \<open>\<open>numOrNull\<close>.\<close>

definition numOrNull :: "xmlval \<Rightarrow> jsnum option" where
  "numOrNull x = (let n = Number_of x in if isFinite n then Some n else None)"

definition opt_string :: "xmlval \<Rightarrow> jsstring option" where
  "opt_string x = (case x of Absent \<Rightarrow> None | Val s n \<Rightarrow> Some s)"

text \<open>The body of the loop over the items: \<open>None\<close> where the source says \<open>continue\<close>.\<close>

definition item_row ::
  "nat \<Rightarrow> jsstring option \<Rightarrow> jsstring \<Rightarrow> jsnum option \<Rightarrow> item \<Rightarrow> price_row option" where
  "item_row fid subChainIdStr storeIdNorm bikoretNo it =
     (let rawName = trim (String_of (nullish (ItemName it) (Val [] (Finite 0))));
          cleanName = replace_g match_spaces [0x20] rawName;
          price = Number_of (ItemPrice it)
      in
      if cleanName = [] \<or> \<not> isFinite price then None
      else
        let itemCode = opt_string (ItemCode it);
            barcode = (case itemCode of
                         None \<Rightarrow> None
                       | Some c \<Rightarrow> if c \<noteq> [] \<and> barcode_shaped c then Some c else None);
            qty = numOrNull (Quantity it);
            uom = opt_string (UnitOfMeasure it);
            priceUpdate = opt_string (PriceUpdateTime it);
            lastSale = opt_string (LastSaleDateTime it);
            isWeighted = (case bIsWeighted it of
                            Absent \<Rightarrow> None
                          | Val s n \<Rightarrow> Some (s = js ''1''));
            qtyInPackage = (case QtyInPackage it of
                              Absent \<Rightarrow> None
                            | Val s n \<Rightarrow> Some n);
            canonical = (let k = normalizeCanonical cleanName in if k = [] then None else Some k)
        in
        if itemCode = None \<or> itemCode = Some [] then None
        else Some \<lparr>raw_file_id = fid, row_chain = CHAIN_parse, sub_chain_id = subChainIdStr,
                   row_store_id = Some storeIdNorm, bikoret_no = bikoretNo,
                   item_code = itemCode, barcode = barcode, item_name = cleanName,
                   canonical_key = canonical, price = price, unit_qty = qty,
                   unit_of_measure = uom, price_update_time = priceUpdate,
                   last_sale_datetime = lastSale, is_weighted = isWeighted,
                   qty_in_package = qtyInPackage\<rparr>)"

definition collect_rows ::
  "nat \<Rightarrow> jsstring option \<Rightarrow> jsstring \<Rightarrow> jsnum option \<Rightarrow> item list \<Rightarrow> price_row list" where
  "collect_rows fid subChainIdStr storeIdNorm bikoretNo items =
     List.map_filter (item_row fid subChainIdStr storeIdNorm bikoretNo) items"

text \<open>
  The loop over the batches. On an error the file is marked failed, and the \<open>continue\<close> that
  follows is the \<open>continue\<close> of this loop: the next batch is sent.
\<close>

function insert_batches :: "decoder_env \<Rightarrow> nat \<Rightarrow> price_row list \<Rightarrow> nat \<Rightarrow> world \<Rightarrow> world" where
  "insert_batches env fid rows i w =
     (if i < length rows then
        (let chunk = take BATCH (drop i rows) in
         case upsert_error env fid i of
           Some msg \<Rightarrow> insert_batches env fid rows (i + BATCH) (update_status fid Failed (Some msg) w)
         | None \<Rightarrow> insert_batches env fid rows (i + BATCH) (w\<lparr>prices := upsert_prices chunk (prices w)\<rparr>))
      else w)"
  by pat_completeness auto
termination
  by (relation "measure (\<lambda>(env, fid, rows, i, w). length rows - i)") (auto simp: BATCH_def)

declare insert_batches.simps [simp del]

text \<open>The outcome of a program: it came to its end, or an exception left it. The tables
  are the database's, so what was written before the exception stays written.\<close>

datatype 'a run = Finished 'a | Crashed 'a

fun world_of :: "'a run \<Rightarrow> 'a" where
  "world_of (Finished w) = w"
| "world_of (Crashed w) = w"

text \<open>\<open>doc?.root ?? doc?.Root ?? null\<close>.\<close>

definition doc_root :: "xml_doc \<Rightarrow> root_node" where
  "doc_root doc = (case root_lc doc of NoRoot \<Rightarrow> root_uc doc | r \<Rightarrow> r)"

text \<open>\<open>storeIdNorm\<close>: the store id of the XML if it is a non-empty string, else that of the
  ledger row if it is one, padded to three digits; \<open>f\<close> is the row as the first query
  returned it.\<close>

definition storeIdNorm :: "xml_root \<Rightarrow> raw_file \<Rightarrow> jsstring option" where
  "storeIdNorm rt f =
     (let storeIdStr = opt_string (nullish (StoreID rt) (StoreId rt)) in
      if storeIdStr \<noteq> None \<and> storeIdStr \<noteq> Some [] then Some (padStart 3 0x30 (the storeIdStr))
      else if store_id f \<noteq> None \<and> store_id f \<noteq> Some []
      then Some (padStart 3 0x30 (the (store_id f)))
      else None)"

text \<open>The body of the loop over the files.\<close>

definition parse_file :: "decoder_env \<Rightarrow> raw_file \<Rightarrow> world \<Rightarrow> world run" where
  "parse_file env f w =
     (case storage_path f of
        None \<Rightarrow> Finished w
      | Some path \<Rightarrow>
          if path = [] then Finished w
          else
            (case storage_download env (file_id f) path of
               Inl msg \<Rightarrow> Finished (update_status (file_id f) Failed (Some msg) w)
             | Inr buf \<Rightarrow>
                 if \<not> isGzip buf then
                   Finished (update_status (file_id f) Failed
                               (Some (js ''Not a gzip file (magic bytes missing)'')) w)
                 else
                   (case read_xml env buf of
                      None \<Rightarrow> Crashed w
                    | Some doc \<Rightarrow>
                        (case doc_root doc of
                           NoRoot \<Rightarrow>
                             Finished (update_status (file_id f) Failed
                                         (Some (js ''XML missing root'')) w)
                         | FalsyRoot \<Rightarrow>
                             Finished (update_status (file_id f) Failed
                                         (Some (js ''XML missing root'')) w)
                         | Root rt \<Rightarrow>
                             (let subChainIdStr = opt_string (nullish (SubChainID rt) (SubChainId rt))
                              in
                              case storeIdNorm rt f of
                                None \<Rightarrow>
                                  Finished (update_status (file_id f) Failed
                                              (Some (js ''Missing StoreId in XML'')) w)
                              | Some sid \<Rightarrow>
                                  (let w1 = update_store_id (file_id f) sid w;
                                       bikoretNo = (case BikoretNo rt of
                                                      Absent \<Rightarrow> None
                                                    | Val s n \<Rightarrow> Some n);
                                       items = toArray (Items_Item rt)
                                   in
                                   if items = [] then
                                     Finished (update_status (file_id f) Failed
                                                 (Some (js ''No Items in XML'')) w1)
                                   else
                                     (let rows = collect_rows (file_id f) subChainIdStr sid
                                                   bikoretNo items;
                                          w2 = insert_batches env (file_id f) rows 0 w1
                                      in Finished (update_status (file_id f) Parsed None w2))))))))"

text \<open>\<open>contains p s\<close>: \<open>s LIKE '%p%'\<close>.\<close>

fun contains :: "jsstring \<Rightarrow> jsstring \<Rightarrow> bool" where
  "contains p [] = (p = [])"
| "contains p (c # cs) = (take (length p) (c # cs) = p \<or> contains p cs)"

text \<open>The first query: the rows of the chain with status downloaded whose storage path
  contains \<open>PriceFull\<close>, latest first, fifty at most.\<close>

definition select_downloaded :: "raw_file list \<Rightarrow> raw_file list" where
  "select_downloaded tbl =
     take 50 (rev (sort_key fetched_at
       (filter (\<lambda>r. chain r = CHAIN_parse \<and> status r = Downloaded \<and>
                     (case storage_path r of None \<Rightarrow> False | Some p \<Rightarrow> contains (js ''PriceFull'') p))
               tbl)))"

fun parse_files :: "decoder_env \<Rightarrow> raw_file list \<Rightarrow> world \<Rightarrow> world run" where
  "parse_files env [] w = Finished w"
| "parse_files env (f # fs) w =
     (case parse_file env f w of
        Crashed w' \<Rightarrow> Crashed w'
      | Finished w' \<Rightarrow> parse_files env fs w')"

definition parse_main :: "decoder_env \<Rightarrow> world \<Rightarrow> world run" where
  "parse_main env w =
     (case select_error env of
        Some e \<Rightarrow> Crashed w
      | None \<Rightarrow> parse_files env (select_downloaded (raw_files w)) w)"


section \<open>The collectors\<close>

text \<open>
  What a collector cannot decide by itself, asked for at the \<open>n\<close>-th candidate of the run:
  whether the query for an existing row fails, what the download returns, what the object
  store and the database answer to a write, what the clocks show; and the platform's URL
  parser, path functions and hash.
\<close>

record response =
  ok :: bool
  http_status :: nat
  body :: bytes
  content_disposition :: "jsstring option"
  final_url :: jsstring

record collector_env =
  exists_error :: "nat \<Rightarrow> bool"
  http_fetch :: "nat \<Rightarrow> jsstring \<Rightarrow> jsstring + response"
  url_pathname :: "jsstring \<Rightarrow> jsstring + jsstring"
  date_now :: "nat \<Rightarrow> nat"
  today :: "nat \<Rightarrow> nat \<times> nat \<times> nat"
  sha256_hex :: "bytes \<Rightarrow> jsstring"
  upload_error :: "nat \<Rightarrow> jsstring \<Rightarrow> jsstring option"
  insert_error :: "nat \<Rightarrow> status \<Rightarrow> jsstring option"
  db_now :: "nat \<Rightarrow> nat"
  page_links :: "nat \<Rightarrow> jsstring list option"
  url_basename :: "jsstring \<Rightarrow> jsstring option"
  curl_download :: "nat \<Rightarrow> jsstring \<Rightarrow> bytes option"
  upsert_error_raw :: "nat \<Rightarrow> jsstring option"

text \<open>A non-negative integer in a template literal.\<close>

fun dec :: "nat \<Rightarrow> jsstring" where
  "dec n = (if n < 10 then [of_nat (48 + n)] else dec (n div 10) @ [of_nat (48 + n mod 10)])"

declare dec.simps [simp del]

definition fresh_id :: "raw_file list \<Rightarrow> nat" where
  "fresh_id tbl = Suc (foldr max (map file_id tbl) 0)"

text \<open>\<open>.from("raw_files").insert(row)\<close>: the database adds the row with an id and the time of
  the insertion, or answers with an error. Nothing here keeps a second row with the same
  chain and URL out of the table: the model assumes no constraint of the database.\<close>

definition insert_raw ::
  "collector_env \<Rightarrow> nat \<Rightarrow> raw_file \<Rightarrow> world \<Rightarrow> jsstring option \<times> world" where
  "insert_raw env n row w =
     (case insert_error env n (status row) of
        Some e \<Rightarrow> (Some e, w)
      | None \<Rightarrow>
          (None, w\<lparr>raw_files := raw_files w @
                      [row\<lparr>file_id := fresh_id (raw_files w), fetched_at := db_now env n\<rparr>]\<rparr>))"

text \<open>\<open>contentDisp.match(/filename="?([^"]+)"?/i)\<close>, tried at the head of \<open>s\<close>; the result is
  the capture. If the quote after \<open>filename\<close> is taken and no other code unit follows,
  leaving the quote out does not help either, since the class excludes it.\<close>

definition match_disposition :: "jsstring \<Rightarrow> jsstring option" where
  "match_disposition s =
     (case match_lit (js ''filename'') s of
        None \<Rightarrow> None
      | Some r \<Rightarrow>
          let r' = (case r of c # t \<Rightarrow> if c = 0x22 then t else r | [] \<Rightarrow> r);
              name = takeWhile (\<lambda>c. c \<noteq> 0x22) r'
          in if name = [] then None else Some name)"

text \<open>\<open>pathname.split("/").pop()\<close> and the test \<open>base && base.toLowerCase().endsWith(".gz")\<close>;
  only \<open>G\<close>, \<open>g\<close>, \<open>Z\<close> and \<open>z\<close> have the lower-case forms \<open>g\<close> and \<open>z\<close>.\<close>

definition last_segment :: "jsstring \<Rightarrow> jsstring" where
  "last_segment p = rev (takeWhile (\<lambda>c. c \<noteq> 0x2F) (rev p))"

definition ends_with_gz :: "jsstring \<Rightarrow> bool" where
  "ends_with_gz b \<longleftrightarrow> 3 \<le> length b \<and> map upper (drop (length b - 3) b) = js ''.GZ''"

text \<open>The row that a collector writes; id and time are the database's.\<close>

definition raw_row ::
  "jsstring \<Rightarrow> jsstring option \<Rightarrow> jsstring \<Rightarrow> jsstring option \<Rightarrow> jsstring option \<Rightarrow> status \<Rightarrow>
   jsstring option \<Rightarrow> raw_file" where
  "raw_row ch sid url path sha st err =
     \<lparr>file_id = 0, chain = ch, store_id = sid, file_url = url, storage_path = path,
      sha256 = sha, fetched_at = 0, status = st, error = err\<rparr>"

text \<open>\<open>a ?? b\<close> on results of the resolver.\<close>

fun orElse :: "'a option \<Rightarrow> 'a option \<Rightarrow> 'a option" where
  "orElse (Some x) b = Some x"
| "orElse None b = b"

text \<open>
  The body of the loop over the links in \<open>runShufersalCollector\<close> and in the
  \<open>runYohananofCollector\<close> that downloads over HTTP: the two differ in the chain name, the
  grammars, the prefix of the made-up file name and the request headers only. The result
  says whether \<open>downloaded\<close> was incremented. No byte of the body is looked at.
\<close>

definition collect_link ::
  "collector_env \<Rightarrow> jsstring \<Rightarrow> atom list list \<Rightarrow> jsstring \<Rightarrow> nat \<Rightarrow> jsstring \<Rightarrow> world \<Rightarrow>
   (bool \<times> world) run" where
  "collect_link env CHAIN grammars prefix n fileUrl w =
     (if exists_error env n then Crashed (False, w)
      else if list_ex (\<lambda>r. chain r = CHAIN \<and> file_url r = fileUrl) (raw_files w)
      then Finished (False, w)
      else
        (let w0 = w\<lparr>requested := requested w @ [fileUrl]\<rparr>;
             failed = (\<lambda>sid path sha msg.
                Finished (False, snd (insert_raw env n
                   (raw_row CHAIN sid fileUrl path sha Failed (Some msg)) w0)))
         in
         (case http_fetch env n fileUrl of
            Inl msg \<Rightarrow> failed None None None msg
          | Inr res \<Rightarrow>
              (if \<not> ok res
               then failed None None None (js ''Download HTTP '' @ dec (http_status res))
               else
                 (let gzSha = sha256_hex env (body res);
                      contentDisp = (case content_disposition res of None \<Rightarrow> [] | Some h \<Rightarrow> h);
                      named =
                        (case find_first match_disposition contentDisp of
                           Some name \<Rightarrow> Inr name
                         | None \<Rightarrow>
                             (case url_pathname env (final_url res) of
                                Inl msg \<Rightarrow> Inl msg
                              | Inr pathname \<Rightarrow>
                                  (let base = last_segment pathname in
                                   if base \<noteq> [] \<and> ends_with_gz base then Inr base
                                   else Inr (prefix @ dec (date_now env n) @ js ''.gz''))))
                  in
                  (case named of
                     Inl msg \<Rightarrow> failed None None (Some gzSha) msg
                   | Inr filename \<Rightarrow>
                       (let storeId =
                              orElse (extractStoreIdFromFilename grammars filename)
                                (orElse (extractStoreIdFromFilename grammars (final_url res))
                                        (extractStoreIdFromFilename grammars fileUrl))
                        in
                        if storeId = None \<or> storeId = Some [] then
                          Finished (False, snd (insert_raw env n
                            (raw_row CHAIN None fileUrl None (Some gzSha) Skipped
                               (Some (js ''no storeId in filename: '' @ filename))) w0))
                        else
                          (let (yyyy, mm, dd) = today env n;
                               storagePath = CHAIN @ js ''/'' @ dec yyyy @ js ''-'' @
                                 padStart 2 0x30 (dec mm) @ js ''-'' @ padStart 2 0x30 (dec dd) @
                                 js ''/'' @ the storeId @ js ''/'' @ filename
                           in
                           (case upload_error env n storagePath of
                              Some msg \<Rightarrow> failed storeId (Some storagePath) (Some gzSha) msg
                            | None \<Rightarrow>
                                (case insert_raw env n
                                        (raw_row CHAIN storeId fileUrl (Some storagePath)
                                           (Some gzSha) Downloaded None) w0 of
                                   (Some msg, w1) \<Rightarrow>
                                     failed storeId (Some storagePath) (Some gzSha) msg
                                 | (None, w1) \<Rightarrow> Finished (True, w1)))))))))))"

text \<open>The loop over the links, with the count of downloads and the number of the
  candidate; it is left when the count has reached \<open>maxDownloads\<close>, which the first
  component of the result records.\<close>

fun collect_links ::
  "collector_env \<Rightarrow> jsstring \<Rightarrow> atom list list \<Rightarrow> jsstring \<Rightarrow> nat \<Rightarrow> jsstring list \<Rightarrow>
   nat \<times> nat \<times> world \<Rightarrow> (bool \<times> nat \<times> nat \<times> world) run" where
  "collect_links env CHAIN grammars prefix maxDownloads [] st = Finished (False, st)"
| "collect_links env CHAIN grammars prefix maxDownloads (fileUrl # links) (downloaded, n, w) =
     (if downloaded \<ge> maxDownloads then Finished (True, downloaded, n, w)
      else
        case collect_link env CHAIN grammars prefix n fileUrl w of
          Crashed (b, w') \<Rightarrow> Crashed (False, downloaded, Suc n, w')
        | Finished (b, w') \<Rightarrow>
            collect_links env CHAIN grammars prefix maxDownloads links
              (if b then Suc downloaded else downloaded, Suc n, w'))"

subsection \<open>Yohananof over HTTP\<close>

definition CHAIN_yochananof :: jsstring where
  "CHAIN_yochananof = js ''yochananof''"

text \<open>\<open>/PriceFull\d+.*\.gz/i.test(u)\<close>: somewhere \<open>PriceFull\<close> and a digit, and \<open>.gz\<close> later on
  the same line (the dot of \<open>.*\<close> matches no line terminator).\<close>

definition is_line_end :: "jschar \<Rightarrow> bool" where
  "is_line_end c \<longleftrightarrow> c = 0x0A \<or> c = 0x0D \<or> c = 0x2028 \<or> c = 0x2029"

definition is_pricefull_gz :: "jsstring \<Rightarrow> bool" where
  "is_pricefull_gz u \<longleftrightarrow>
     find_first (\<lambda>t. case match_lit (js ''PriceFull'') t of
                       Some (d # r) \<Rightarrow>
                         if is_digit d \<and>
                            find_first (match_lit (js ''.gz'')) (takeWhile (\<lambda>c. \<not> is_line_end c) r) \<noteq> None
                         then Some True else None
                     | _ \<Rightarrow> None) u \<noteq> None"

text \<open>\<open>links\<close> is the list of seeds, or what the home page gave when there are none.\<close>

definition runYohananofCollector_http ::
  "collector_env \<Rightarrow> nat \<Rightarrow> jsstring list \<Rightarrow> world \<Rightarrow> (nat \<times> world) run" where
  "runYohananofCollector_http env maxDownloads links w =
     (if links = [] then Finished (0, w)
      else
        case collect_links env CHAIN_yochananof yohananof_grammars (js ''PriceFull_'') maxDownloads
               (filter is_pricefull_gz links) (0, 0, w) of
          Finished (capped, d, n, w') \<Rightarrow> Finished (d, w')
        | Crashed (capped, d, n, w') \<Rightarrow> Crashed (d, w'))"

subsection \<open>Shufersal\<close>

definition CHAIN_shufersal :: jsstring where
  "CHAIN_shufersal = js ''shufersal''"

text \<open>The loop over the pages; \<open>page_links\<close> is \<open>extractPriceGzLinks(await fetchPageHtml(page))\<close>,
  \<open>None\<close> when the request of the page throws. When the count has reached \<open>maxDownloads\<close> at
  a link, the function returns.\<close>

function shufersal_pages ::
  "collector_env \<Rightarrow> nat \<Rightarrow> nat \<Rightarrow> nat \<Rightarrow> nat \<times> nat \<times> world \<Rightarrow> (nat \<times> world) run" where
  "shufersal_pages env maxPages maxDownloads page (downloaded, n, w) =
     (if page \<le> maxPages then
        (case page_links env page of
           None \<Rightarrow> Crashed (downloaded, w)
         | Some links \<Rightarrow>
             if links = [] then Finished (downloaded, w)
             else
               (case collect_links env CHAIN_shufersal shufersal_grammars (js ''Price_'')
                       maxDownloads links (downloaded, n, w) of
                  Crashed (capped, d, n', w') \<Rightarrow> Crashed (d, w')
                | Finished (capped, d, n', w') \<Rightarrow>
                    if capped then Finished (d, w')
                    else shufersal_pages env maxPages maxDownloads (Suc page) (d, n', w')))
      else Finished (downloaded, w))"
  by pat_completeness auto
termination
  by (relation "measure (\<lambda>(env, maxPages, maxDownloads, page, st). Suc maxPages - page)") auto

declare shufersal_pages.simps [simp del]

definition runShufersalCollector ::
  "collector_env \<Rightarrow> nat \<Rightarrow> nat \<Rightarrow> world \<Rightarrow> (nat \<times> world) run" where
  "runShufersalCollector env maxPages maxDownloads w =
     shufersal_pages env maxPages maxDownloads 1 (0, 0, w)"


subsection \<open>Yohananof with a browser session and curl\<close>

definition CHAIN_yohananof :: jsstring where
  "CHAIN_yohananof = js ''yohananof''"

text \<open>\<open>parsePriceFullFilenameFromUrl\<close>: \<open>url_basename\<close> is
  \<open>path.basename(new URL(url).pathname)\<close>, the expression is
  \<open>/^PriceFull(\d+)-(\d+)-(\d{12})\.gz$/i\<close>; the result is the file name, \<open>m[2]\<close> and the
  date, \<open>None\<close> when an exception is thrown.\<close>

definition parsePriceFullFilenameFromUrl ::
  "collector_env \<Rightarrow> jsstring \<Rightarrow> (jsstring \<times> jsstring \<times> jsstring) option" where
  "parsePriceFullFilenameFromUrl env url =
     (case url_basename env url of
        None \<Rightarrow> None
      | Some filename \<Rightarrow>
          (case match_seq [Lit (js ''PriceFull''), Group 1 None, Lit (js ''-''), Group 1 None,
                           Lit (js ''-''), Group 12 (Some 12), Lit (js ''.gz'')] [] filename of
             Some (m, []) \<Rightarrow>
               let yyyymmdd = take 8 (m ! 2);
                   date = take 4 yyyymmdd @ js ''-'' @ take 2 (drop 4 yyyymmdd) @ js ''-'' @
                          take 2 (drop 6 yyyymmdd)
               in Some (filename, m ! 1, date)
           | _ \<Rightarrow> None))"

text \<open>\<open>upsertRawFile\<close>: an upsert on the key \<open>chain,file_url\<close> that sends every column but
  the id, and only logs an error.\<close>

definition same_raw_key :: "raw_file \<Rightarrow> raw_file \<Rightarrow> bool" where
  "same_raw_key a b \<longleftrightarrow> chain a = chain b \<and> file_url a = file_url b"

definition upsertRawFile :: "collector_env \<Rightarrow> nat \<Rightarrow> raw_file \<Rightarrow> world \<Rightarrow> world" where
  "upsertRawFile env n row w =
     (case upsert_error_raw env n of
        Some e \<Rightarrow> w
      | None \<Rightarrow>
          if list_ex (same_raw_key row) (raw_files w)
          then w\<lparr>raw_files := map (\<lambda>x. if same_raw_key row x then row\<lparr>file_id := file_id x\<rparr> else x)
                                  (raw_files w)\<rparr>
          else w\<lparr>raw_files := raw_files w @ [row\<lparr>file_id := fresh_id (raw_files w)\<rparr>]\<rparr>)"

text \<open>The loop over the URLs. The file is downloaded for every URL, whatever the ledger
  holds (``always re-download''); \<open>curl_download\<close> is the content of the local file after
  the download, \<open>None\<close> when curl or the file system fails.\<close>

fun curl_links ::
  "collector_env \<Rightarrow> jsstring list \<Rightarrow> nat \<times> nat \<times> world \<Rightarrow> (nat \<times> world) run" where
  "curl_links env [] (downloaded, n, w) = Finished (downloaded, w)"
| "curl_links env (url # urls) (downloaded, n, w) =
     (case parsePriceFullFilenameFromUrl env url of
        None \<Rightarrow> Crashed (downloaded, w)
      | Some (filename, storeId, date) \<Rightarrow>
          (let w0 = w\<lparr>requested := requested w @ [url]\<rparr> in
           (case curl_download env n url of
              None \<Rightarrow> Crashed (downloaded, w0)
            | Some fileBuf \<Rightarrow>
                (let storagePath =
                       js ''yohananof/'' @ date @ js ''/'' @ storeId @ js ''/'' @ filename;
                     fetchedAt = db_now env n;
                     row = (\<lambda>sha st err.
                        \<lparr>file_id = 0, chain = CHAIN_yohananof, store_id = Some storeId,
                         file_url = url, storage_path = Some storagePath, sha256 = sha,
                         fetched_at = fetchedAt, status = st, error = err\<rparr>)
                 in
                 if \<not> isGzip fileBuf then
                   curl_links env urls (downloaded, Suc n,
                     upsertRawFile env n (row None Failed
                       (Some (js ''Download returned non-gzip content (likely HTML login/redirect)'')))
                       w0)
                 else
                   (let sha = sha256_hex env fileBuf in
                    (case upload_error env n storagePath of
                       Some msg \<Rightarrow>
                         curl_links env urls (downloaded, Suc n,
                           upsertRawFile env n (row (Some sha) Failed
                             (Some (js ''Storage upload failed: '' @ msg))) w0)
                     | None \<Rightarrow>
                         curl_links env urls (Suc downloaded, Suc n,
                           upsertRawFile env n (row (Some sha) Downloaded None) w0)))))))"

text \<open>\<open>discovered\<close> is what the browser session found.\<close>

definition runYohananofCollector ::
  "collector_env \<Rightarrow> nat \<Rightarrow> jsstring list \<Rightarrow> world \<Rightarrow> (nat \<times> world) run" where
  "runYohananofCollector env maxDownloads discovered w =
     curl_links env (take maxDownloads discovered) (0, 0, w)"

section \<open>The daily aggregator (aggregate\_daily.ts)\<close>

text \<open>
  The program sends one SQL statement. Its tables are modelled with the columns the
  statement reads and writes: times are seconds, a date is the number of the day, prices
  are exact numbers.
\<close>

record stored_price =
  sp_chain :: jsstring
  sp_canonical_key :: "jsstring option"
  sp_price :: rat
  sp_price_update_time :: "int option"
  sp_fetched_at :: int

record product_stats =
  day :: int
  st_chain :: jsstring
  st_canonical_key :: jsstring
  avg_price :: rat
  sample_count :: nat
  min_price :: rat
  max_price :: rat

text \<open>\<open>coalesce(price_update_time, fetched_at)\<close> and its cast to a date.\<close>

definition effective_time :: "stored_price \<Rightarrow> int" where
  "effective_time r = (case sp_price_update_time r of Some t \<Rightarrow> t | None \<Rightarrow> sp_fetched_at r)"

definition day_of :: "int \<Rightarrow> int" where
  "day_of t = t div 86400"

text \<open>The \<open>where\<close> clause, \<open>interval '2 days'\<close> being 172800 seconds.\<close>

definition in_window :: "int \<Rightarrow> stored_price \<Rightarrow> bool" where
  "in_window now r \<longleftrightarrow> sp_canonical_key r \<noteq> None \<and> effective_time r \<ge> now - 172800"

definition group_key :: "stored_price \<Rightarrow> int \<times> jsstring \<times> jsstring" where
  "group_key r = (day_of (effective_time r), sp_chain r, the (sp_canonical_key r))"

text \<open>\<open>round(x, 2)\<close> on a \<open>numeric\<close>: to the nearest hundredth, a tie away from zero.\<close>

definition round2 :: "rat \<Rightarrow> rat" where
  "round2 q = (if q < 0 then - 1 else 1) * of_int \<lfloor>\<bar>q\<bar> * 100 + 1 / 2\<rfloor> / 100"

text \<open>The aggregates of one group.\<close>

definition group_stats :: "int \<times> jsstring \<times> jsstring \<Rightarrow> stored_price list \<Rightarrow> product_stats" where
  "group_stats k grp =
     (let ps = map sp_price grp in
      \<lparr>day = fst k, st_chain = fst (snd k), st_canonical_key = snd (snd k),
       avg_price = round2 (sum_list ps / of_nat (length ps)),
       sample_count = length ps,
       min_price = Min (set ps),
       max_price = Max (set ps)\<rparr>)"

text \<open>The \<open>select\<close>: one row for each group of the rows that pass the \<open>where\<close> clause.\<close>

definition daily_select :: "int \<Rightarrow> stored_price list \<Rightarrow> product_stats list" where
  "daily_select now tbl =
     (let rows = filter (in_window now) tbl in
      map (\<lambda>k. group_stats k (filter (\<lambda>r. group_key r = k) rows)) (remdups (map group_key rows)))"

text \<open>\<open>on conflict (day, chain, canonical_key) do update set\<close> the four aggregates.\<close>

definition stats_key :: "product_stats \<Rightarrow> int \<times> jsstring \<times> jsstring" where
  "stats_key s = (day s, st_chain s, st_canonical_key s)"

definition upsert_stats :: "product_stats list \<Rightarrow> product_stats \<Rightarrow> product_stats list" where
  "upsert_stats tbl s =
     (if list_ex (\<lambda>x. stats_key x = stats_key s) tbl
      then map (\<lambda>x. if stats_key x = stats_key s
                     then x\<lparr>avg_price := avg_price s, sample_count := sample_count s,
                            min_price := min_price s, max_price := max_price s\<rparr>
                     else x) tbl
      else tbl @ [s])"

text \<open>The statement, and the program around it: when the remote procedure is not there,
  the statement is printed and nothing is written.\<close>

definition aggregate_sql :: "int \<Rightarrow> stored_price list \<Rightarrow> product_stats list \<Rightarrow> product_stats list" where
  "aggregate_sql now tbl stats = foldl upsert_stats stats (daily_select now tbl)"

definition aggregate_main ::
  "bool \<Rightarrow> int \<Rightarrow> stored_price list \<Rightarrow> product_stats list \<Rightarrow> product_stats list" where
  "aggregate_main rpc_error now tbl stats = (if rpc_error then stats else aggregate_sql now tbl stats)"


section \<open>Notions used in the proofs\<close>

text \<open>A string in which white space occurs only as single blanks between other code
  units or at the ends.\<close>

fun norm_ws :: "jsstring \<Rightarrow> bool" where
  "norm_ws [] = True"
| "norm_ws [c] = (is_space c \<longrightarrow> c = 0x20)"
| "norm_ws (c # d # s) = ((is_space c \<longrightarrow> c = 0x20 \<and> \<not> is_space d) \<and> norm_ws (d # s))"

text \<open>\<open>cleanName\<close> of an item, and the three reasons for which the loop over the items
  leaves an item out: no name, no finite price, no item code.\<close>

definition clean_name :: "item \<Rightarrow> jsstring" where
  "clean_name it =
     replace_g match_spaces [0x20] (trim (String_of (nullish (ItemName it) (Val [] (Finite 0)))))"

definition row_rejected :: "item \<Rightarrow> bool" where
  "row_rejected it \<longleftrightarrow>
     clean_name it = [] \<or> \<not> isFinite (Number_of (ItemPrice it)) \<or>
     ItemCode it = Absent \<or> String_of (ItemCode it) = []"

subsection \<open>Sample inputs\<close>

definition sample_item :: "xmlval \<Rightarrow> xmlval \<Rightarrow> xmlval \<Rightarrow> xmlval \<Rightarrow> item" where
  "sample_item name prc code weighted =
     \<lparr>ItemName = name, ItemPrice = prc, ItemCode = code, Quantity = Absent,
      UnitOfMeasure = Absent, PriceUpdateTime = Absent, LastSaleDateTime = Absent,
      bIsWeighted = weighted, QtyInPackage = Absent\<rparr>"

definition item_no_name :: item where
  "item_no_name =
     sample_item Absent (Val (js ''5.9'') (Finite (59 / 10)))
       (Val (js ''7290000066318'') (Finite 7290000066318)) Absent"

definition item_no_price :: item where
  "item_no_price =
     sample_item (Val (js ''Milk'') NaN) (Val (js ''n/a'') NaN)
       (Val (js ''7290000066319'') (Finite 7290000066319)) Absent"

definition item_500g :: item where
  "item_500g =
     sample_item (Val (js ''  500  g '') NaN) (Val (js ''5.9'') (Finite (59 / 10)))
       (Val (js ''7290000066318'') (Finite 7290000066318)) (Val (js ''1'') (Finite 1))"

definition row_500g :: price_row where
  "row_500g =
     \<lparr>raw_file_id = 7, row_chain = js ''yohananof'', sub_chain_id = Some (js ''1''),
      row_store_id = Some (js ''009''), bikoret_no = None,
      item_code = Some (js ''7290000066318''), barcode = Some (js ''7290000066318''),
      item_name = js ''500 g'', canonical_key = None, price = Finite (59 / 10),
      unit_qty = None, unit_of_measure = None, price_update_time = None,
      last_sale_datetime = None, is_weighted = Some True, qty_in_package = None\<rparr>"

definition sample_file :: raw_file where
  "sample_file =
     \<lparr>file_id = 7, chain = js ''yohananof'', store_id = None,
      file_url = js ''https://url.publishedprices.co.il/file/d/PriceFull7290803800003-009-202601140501.gz'',
      storage_path = Some (js ''yohananof/2026-01-14/009/PriceFull7290803800003-009-202601140501.gz''),
      sha256 = None, fetched_at = 100, status = Downloaded, error = None\<rparr>"

definition sample_world :: world where
  "sample_world = \<lparr>raw_files = [sample_file], prices = [], requested = []\<rparr>"

definition sample_root :: "item_node \<Rightarrow> xml_root" where
  "sample_root items =
     \<lparr>SubChainID = Absent, SubChainId = Val (js ''1'') (Finite 1),
      StoreID = Absent, StoreId = Val (js ''9'') (Finite 9),
      BikoretNo = Absent, Items_Item = items\<rparr>"

definition sample_env :: "bytes \<Rightarrow> item_node \<Rightarrow> jsstring option \<Rightarrow> decoder_env" where
  "sample_env buf items err =
     \<lparr>select_error = None, storage_download = (\<lambda>fid path. Inr buf),
      read_xml = (\<lambda>b. Some \<lparr>root_lc = Root (sample_root items), root_uc = NoRoot\<rparr>),
      upsert_error = (\<lambda>fid i. err)\<rparr>"

text \<open>The bounds of the capture groups of a pattern, in order.\<close>

fun group_bounds :: "atom list \<Rightarrow> (nat \<times> nat option) list" where
  "group_bounds [] = []"
| "group_bounds (Group lo hi # as) = (lo, hi) # group_bounds as"
| "group_bounds (a # as) = group_bounds as"

text \<open>The key of the ledger, and a ledger in which no two rows share it.\<close>

definition raw_key :: "raw_file \<Rightarrow> jsstring \<times> jsstring" where
  "raw_key r = (chain r, file_url r)"

definition unique_keys :: "world \<Rightarrow> bool" where
  "unique_keys w \<longleftrightarrow> distinct (map raw_key (raw_files w))"

text \<open>What one pass of the loop body of a collector over HTTP does when the ledger has no
  row for the URL: one request for the URL and at most one new row, with the chain and the
  URL as key.\<close>

definition link_effect :: "jsstring \<Rightarrow> jsstring \<Rightarrow> world \<Rightarrow> world \<Rightarrow> bool" where
  "link_effect ch url w w' \<longleftrightarrow>
     requested w' = requested w @ [url] \<and> prices w' = prices w \<and>
     (raw_files w' = raw_files w \<or>
      (\<exists>r. raw_files w' = raw_files w @ [r] \<and> raw_key r = (ch, url)))"

text \<open>What a run of such a collector does: it adds rows of its chain with keys that the
  ledger did not hold, no two of them with the same key, and requests only URLs for which
  the ledger held no row of the chain.\<close>

definition run_effect :: "jsstring \<Rightarrow> world \<Rightarrow> world \<Rightarrow> bool" where
  "run_effect ch w w' \<longleftrightarrow>
     (\<exists>new reqs.
        raw_files w' = raw_files w @ new \<and> requested w' = requested w @ reqs \<and>
        prices w' = prices w \<and>
        (\<forall>r\<in>set new. chain r = ch \<and> raw_key r \<notin> set (map raw_key (raw_files w))) \<and>
        distinct (map raw_key new) \<and>
        (\<forall>u\<in>set reqs. (ch, u) \<notin> set (map raw_key (raw_files w))))"

subsection \<open>Sample inputs of the collectors\<close>

text \<open>A blob URL of a Shufersal price file and the URL of a Yohananof price file; a
  world in which every request is answered with the same body and with no disposition
  header, and every write is accepted; the date is 14 January 2026.\<close>

definition shufersal_url :: jsstring where
  "shufersal_url =
     js ''https://pricesprodpublic.blob.core.windows.net/pricefull/PriceFull7290027600007-001-202601140300.gz''"

definition yohananof_url :: jsstring where
  "yohananof_url =
     js ''https://url.publishedprices.co.il/file/d/PriceFull7290803800003-009-202601140501.gz''"

definition html_body :: bytes where
  "html_body = [0x3C, 0x68, 0x74, 0x6D, 0x6C, 0x3E]"

definition sample_collector_env :: "bytes \<Rightarrow> collector_env" where
  "sample_collector_env bd =
     \<lparr>exists_error = (\<lambda>n. False),
      http_fetch = (\<lambda>n url. Inr \<lparr>ok = True, http_status = 200, body = bd,
                                   content_disposition = None, final_url = url\<rparr>),
      url_pathname = (\<lambda>u. Inr (js ''/pricefull/PriceFull7290027600007-001-202601140300.gz'')),
      date_now = (\<lambda>n. 1768359600000),
      today = (\<lambda>n. (2026, 1, 14)),
      sha256_hex = (\<lambda>b. js ''2f1c''),
      upload_error = (\<lambda>n path. None),
      insert_error = (\<lambda>n st. None),
      db_now = (\<lambda>n. 1768359600),
      page_links = (\<lambda>page. if page = 1 then Some [shufersal_url] else Some []),
      url_basename = (\<lambda>u. Some (js ''PriceFull7290803800003-009-202601140501.gz'')),
      curl_download = (\<lambda>n u. Some bd),
      upsert_error_raw = (\<lambda>n. None)\<rparr>"

definition empty_world :: world where
  "empty_world = \<lparr>raw_files = [], prices = [], requested = []\<rparr>"

text \<open>A ledger with one row, for the given chain and URL.\<close>

definition ledger_row :: "jsstring \<Rightarrow> jsstring \<Rightarrow> status \<Rightarrow> jsstring option \<Rightarrow> raw_file" where
  "ledger_row ch url st err =
     \<lparr>file_id = 7, chain = ch, store_id = None, file_url = url, storage_path = None,
      sha256 = None, fetched_at = 100, status = st, error = err\<rparr>"

definition one_row_world :: "jsstring \<Rightarrow> jsstring \<Rightarrow> status \<Rightarrow> jsstring option \<Rightarrow> world" where
  "one_row_world ch url st err = \<lparr>raw_files = [ledger_row ch url st err], prices = [], requested = []\<rparr>"

text \<open>The four aggregates of a row of the statistics.\<close>

definition aggregates :: "product_stats \<Rightarrow> rat \<times> nat \<times> rat \<times> rat" where
  "aggregates s = (avg_price s, sample_count s, min_price s, max_price s)"

text \<open>The statistics hold a row for the key \<open>k\<close>, and every row for it has the aggregates \<open>v\<close>.\<close>

definition holds_stats :: "int \<times> jsstring \<times> jsstring \<Rightarrow> rat \<times> nat \<times> rat \<times> rat \<Rightarrow> product_stats list \<Rightarrow> bool" where
  "holds_stats k v tbl \<longleftrightarrow>
     k \<in> set (map stats_key tbl) \<and> (\<forall>x\<in>set tbl. stats_key x = k \<longrightarrow> aggregates x = v)"

subsection \<open>Sample inputs of the aggregator\<close>

definition stored :: "jsstring option \<Rightarrow> rat \<Rightarrow> int option \<Rightarrow> int \<Rightarrow> stored_price" where
  "stored k p upd fetched =
     \<lparr>sp_chain = js ''yohananof'', sp_canonical_key = k, sp_price = p,
      sp_price_update_time = upd, sp_fetched_at = fetched\<rparr>"

definition sample_prices :: "stored_price list" where
  "sample_prices =
     [stored (Some (js ''milk'')) 10 (Some 1768359600) 1768400000,
      stored None 99 None 1768370000,
      stored (Some (js ''milk'')) 12 None 1768370000,
      stored (Some (js ''milk'')) 11 (Some 1768380000) 1768400000,
      stored (Some (js ''milk'')) 7 (Some 1768000000) 1768400000]"

subsection \<open>The grammars as languages\<close>

text \<open>
  What a file name pattern means, without a matcher: \<open>instance_of p w caps\<close> says that the
  string \<open>w\<close> is made of one piece for each atom of \<open>p\<close>, a piece that equals the literal
  up to the case of letters, or a piece of digits of an admitted length, and that \<open>caps\<close>
  are the pieces of the groups. \<open>contains_instance p x caps\<close> says that \<open>x\<close> has such a
  string somewhere.
\<close>

fun instance_of :: "atom list \<Rightarrow> jsstring \<Rightarrow> jsstring list \<Rightarrow> bool" where
  "instance_of [] w caps \<longleftrightarrow> w = [] \<and> caps = []"
| "instance_of (Lit l # as) w caps \<longleftrightarrow>
     (\<exists>u v. w = u @ v \<and> map upper u = map upper l \<and> instance_of as v caps)"
| "instance_of (Digits lo hi # as) w caps \<longleftrightarrow>
     (\<exists>u v. w = u @ v \<and> list_all is_digit u \<and> run_ok lo hi u \<and> instance_of as v caps)"
| "instance_of (Group lo hi # as) w caps \<longleftrightarrow>
     (\<exists>u v cs. w = u @ v \<and> list_all is_digit u \<and> run_ok lo hi u \<and> caps = u # cs \<and>
                instance_of as v cs)"

definition contains_instance :: "atom list \<Rightarrow> jsstring \<Rightarrow> jsstring list \<Rightarrow> bool" where
  "contains_instance p x caps \<longleftrightarrow> (\<exists>pre w post. x = pre @ w @ post \<and> instance_of p w caps)"

text \<open>A pattern in which every run of digits is followed by a literal that starts with
  something else than a digit.\<close>

fun guarded :: "atom list \<Rightarrow> bool" where
  "guarded [] \<longleftrightarrow> True"
| "guarded (Lit l # as) \<longleftrightarrow> guarded as"
| "guarded (Digits lo hi # Lit (c # l) # as) \<longleftrightarrow> \<not> is_digit c \<and> guarded as"
| "guarded (Group lo hi # Lit (c # l) # as) \<longleftrightarrow> \<not> is_digit c \<and> guarded as"
| "guarded (a # as) \<longleftrightarrow> False"

section \<open>The canonical name normaliser: properties\<close>

lemma replace_g_no_match:
  "(\<And>t. set t \<subseteq> set s \<Longrightarrow> m t = None) \<Longrightarrow> replace_g m rep s = s"
proof (induction s)
  case Nil
  then show ?case by (simp add: replace_g.simps)
next
  case (Cons c cs)
  have "m (c # cs) = None" using Cons.prems by simp
  moreover have "replace_g m rep cs = cs"
    using Cons.prems by (intro Cons.IH) auto
  ultimately show ?case by (simp add: replace_g.simps)
qed

lemma takeWhile_digit_Nil: "\<forall>c\<in>set t. \<not> is_digit c \<Longrightarrow> takeWhile is_digit t = []"
  by (cases t) auto

lemma match_qty_unit_no_digit: "\<forall>c\<in>set t. \<not> is_digit c \<Longrightarrow> match_qty_unit t = None"
  by (simp add: match_qty_unit_def takeWhile_digit_Nil)

lemma match_percent_no_digit: "\<forall>c\<in>set t. \<not> is_digit c \<Longrightarrow> match_percent t = None"
  by (simp add: match_percent_def takeWhile_digit_Nil)

lemma match_multiplier_no_digit:
  assumes "\<forall>c\<in>set t. \<not> is_digit c"
  shows "match_multiplier t = None"
proof (cases "dropWhile is_space t")
  case Nil
  then show ?thesis by (simp add: match_multiplier_def del: dropWhile_eq_Nil_conv)
next
  case (Cons c u)
  have "set (dropWhile is_space u) \<subseteq> set t"
    using set_dropWhileD[of _ is_space u] set_dropWhileD[of _ is_space t] Cons by auto
  then have "takeWhile is_digit (dropWhile is_space u) = []"
    using assms by (intro takeWhile_digit_Nil) auto
  then show ?thesis using Cons by (simp add: match_multiplier_def)
qed

lemma replace_bracket_filter:
  "replace_g match_bracket [] s = filter (\<lambda>c. \<not> is_bracket c) s"
  by (induction s) (auto simp: match_bracket_def replace_g.simps)

lemma norm_ws_Cons_nonspace: "\<not> is_space c \<Longrightarrow> norm_ws (c # s) = norm_ws s"
  by (cases s) auto

lemma norm_ws_tl: "norm_ws (c # s) \<Longrightarrow> norm_ws s"
  by (cases s) auto

lemma norm_ws_hd: "norm_ws (c # s) \<Longrightarrow> is_space c \<Longrightarrow> c = 0x20"
  by (cases s) auto

lemma replace_spaces_Nil: "replace_g match_spaces rep [] = []"
  by (simp add: match_spaces_def replace_g.simps)

lemma replace_spaces_Cons_nonspace:
  "\<not> is_space c \<Longrightarrow> replace_g match_spaces rep (c # s) = c # replace_g match_spaces rep s"
  by (simp add: match_spaces_def replace_g.simps)

lemma replace_spaces_Cons_space:
  "is_space c \<Longrightarrow>
   replace_g match_spaces rep (c # s) = rep @ replace_g match_spaces rep (dropWhile is_space s)"
  using length_dropWhile_le[of is_space s] by (simp add: match_spaces_def replace_g.simps)

text \<open>Collapsing white space yields a string in the normal form, and leaves such a string
  as it is.\<close>

lemma norm_ws_collapse: "norm_ws (replace_g match_spaces [0x20] s)"
proof (induction s rule: length_induct)
  case (1 s)
  show ?case
  proof (cases s)
    case Nil
    then show ?thesis by (simp add: replace_spaces_Nil)
  next
    case (Cons c cs)
    show ?thesis
    proof (cases "is_space c")
      case False
      then show ?thesis using 1 Cons
        by (simp add: replace_spaces_Cons_nonspace norm_ws_Cons_nonspace)
    next
      case True
      let ?r = "dropWhile is_space cs"
      have len: "length ?r < length s" using Cons length_dropWhile_le[of is_space cs] by simp
      have ih: "norm_ws (replace_g match_spaces [0x20] ?r)" using 1 len by blast
      show ?thesis
      proof (cases ?r)
        case Nil
        then have "replace_g match_spaces [0x20] ?r = []" by (simp only: replace_spaces_Nil)
        then show ?thesis using True Cons by (simp add: replace_spaces_Cons_space)
      next
        case (Cons d r')
        then have nd: "\<not> is_space d" using hd_dropWhile[of is_space cs] by auto
        with ih Cons have "norm_ws (d # replace_g match_spaces [0x20] r')"
          by (simp add: replace_spaces_Cons_nonspace)
        then show ?thesis using True \<open>s = c # cs\<close> Cons nd
          by (simp add: replace_spaces_Cons_space replace_spaces_Cons_nonspace)
      qed
    qed
  qed
qed

lemma collapse_norm_ws: "norm_ws s \<Longrightarrow> replace_g match_spaces [0x20] s = s"
proof (induction s rule: norm_ws.induct)
  case 1
  then show ?case by (simp add: replace_spaces_Nil)
next
  case (2 c)
  then show ?case
    by (cases "is_space c")
       (simp_all add: replace_spaces_Cons_space replace_spaces_Cons_nonspace replace_spaces_Nil)
next
  case (3 c d s)
  show ?case
  proof (cases "is_space c")
    case True
    with 3 show ?thesis by (simp add: replace_spaces_Cons_space)
  next
    case False
    with 3 show ?thesis by (simp add: replace_spaces_Cons_nonspace)
  qed
qed

lemma norm_ws_append_left: "norm_ws (xs @ ys) \<Longrightarrow> norm_ws xs"
  by (induction xs rule: norm_ws.induct) (auto dest: norm_ws_hd)

lemma norm_ws_dropWhile: "norm_ws s \<Longrightarrow> norm_ws (dropWhile P s)"
  by (induction s) (auto dest: norm_ws_tl)

lemma trim_prefix:
  "trim s @ rev (takeWhile is_space (rev (dropWhile is_space s))) = dropWhile is_space s"
  unfolding trim_def by (metis rev_append rev_rev_ident takeWhile_dropWhile_id)

lemma norm_ws_trim: "norm_ws s \<Longrightarrow> norm_ws (trim s)"
  using norm_ws_append_left norm_ws_dropWhile trim_prefix by metis

lemma set_trim: "set (trim s) \<subseteq> set s"
  by (auto simp: trim_def dest!: set_dropWhileD)

lemma trim_idem: "trim (trim s) = trim s"
proof -
  let ?u = "dropWhile is_space s"
  let ?y = "trim s"
  have "dropWhile is_space ?y = ?y"
  proof (cases ?y)
    case Nil
    then show ?thesis by simp
  next
    case (Cons c y')
    then have "?u = c # y' @ rev (takeWhile is_space (rev ?u))"
      using trim_prefix[of s] by simp
    then have "hd ?u = c" and "?u \<noteq> []" by (metis list.sel(1), metis list.simps(3))
    then have "\<not> is_space c" using hd_dropWhile[of is_space s] by auto
    then show ?thesis using Cons by simp
  qed
  then show ?thesis by (simp add: trim_def)
qed

lemma set_collapse: "set (replace_g match_spaces [0x20] s) \<subseteq> insert 0x20 (set s)"
proof (induction s rule: length_induct)
  case (1 s)
  show ?case
  proof (cases s)
    case Nil
    then show ?thesis by (simp add: replace_spaces_Nil)
  next
    case (Cons c cs)
    show ?thesis
    proof (cases "is_space c")
      case False
      then show ?thesis using 1 Cons by (auto simp: replace_spaces_Cons_nonspace)
    next
      case True
      have "length (dropWhile is_space cs) < length s"
        using Cons length_dropWhile_le[of is_space cs] by simp
      then have "set (replace_g match_spaces [0x20] (dropWhile is_space cs))
                   \<subseteq> insert 0x20 (set (dropWhile is_space cs))" using 1 by blast
      then show ?thesis using True Cons set_dropWhileD[of _ is_space cs]
        by (auto simp: replace_spaces_Cons_space)
    qed
  qed
qed

lemma normalizeCanonical_no_bracket: "c \<in> set (normalizeCanonical x) \<Longrightarrow> \<not> is_bracket c"
proof -
  assume "c \<in> set (normalizeCanonical x)"
  then have "c \<in> insert 0x20 (set (filter (\<lambda>c. \<not> is_bracket c)
       (replace_g match_percent [] (replace_g match_multiplier [] (replace_g match_qty_unit [] x)))))"
    unfolding normalizeCanonical_def replace_bracket_filter
    using set_trim set_collapse by blast
  then show ?thesis by (auto simp: is_bracket_def)
qed

lemma normalizeCanonical_norm_ws: "norm_ws (normalizeCanonical x)"
  unfolding normalizeCanonical_def by (intro norm_ws_trim norm_ws_collapse)

lemma normalizeCanonical_trimmed: "trim (normalizeCanonical x) = normalizeCanonical x"
  unfolding normalizeCanonical_def by (rule trim_idem)

lemmas normalizer_defs =
  normalizeCanonical_def trim_def match_spaces_def match_bracket_def is_bracket_def
  match_percent_def match_multiplier_def match_qty_unit_def unit_words_def is_digit_def
  is_space_def upper_def js_def Let_def replace_g.simps

text \<open>
  Claim C7, as amended. The normaliser is idempotent on every input whose normalised form
  contains no decimal digit: normalising the normalised form again changes nothing. (The
  three stripping passes need a digit to match; brackets, white space runs and the ends
  are already in their final form.)
\<close>

theorem normalizeCanonical_idempotent_digit_free:
  assumes "\<forall>c\<in>set (normalizeCanonical x). \<not> is_digit c"
  shows "normalizeCanonical (normalizeCanonical x) = normalizeCanonical x"
proof -
  let ?y = "normalizeCanonical x"
  have nd: "\<And>t. set t \<subseteq> set ?y \<Longrightarrow> \<forall>c\<in>set t. \<not> is_digit c" using assms by blast
  have 1: "replace_g match_qty_unit [] ?y = ?y"
    by (rule replace_g_no_match) (simp add: match_qty_unit_no_digit nd)
  have 2: "replace_g match_multiplier [] ?y = ?y"
    by (rule replace_g_no_match) (simp add: match_multiplier_no_digit nd)
  have 3: "replace_g match_percent [] ?y = ?y"
    by (rule replace_g_no_match) (simp add: match_percent_no_digit nd)
  have 4: "replace_g match_bracket [] ?y = ?y"
    unfolding replace_bracket_filter using normalizeCanonical_no_bracket by (simp add: filter_id_conv)
  have 5: "replace_g match_spaces [0x20] ?y = ?y"
    by (rule collapse_norm_ws) (rule normalizeCanonical_norm_ws)
  have "normalizeCanonical ?y = trim ?y"
    by (subst normalizeCanonical_def) (simp only: 1 2 3 4 5)
  then show ?thesis by (simp add: normalizeCanonical_trimmed)
qed

text \<open>The theorem at the label \<open>Milk 3% 1.5 L [new] x 6\<close>, whose normal form is \<open>Milk new\<close>.\<close>

theorem normalizeCanonical_idempotent_digit_free_witness:
  "list_all (\<lambda>c. \<not> is_digit c) (normalizeCanonical (js ''Milk 3% 1.5 L [new] x 6'')) \<and>
   normalizeCanonical (js ''Milk 3% 1.5 L [new] x 6'') = js ''Milk new'' \<and>
   normalizeCanonical (normalizeCanonical (js ''Milk 3% 1.5 L [new] x 6'')) = js ''Milk new''"
proof -
  have v: "normalizeCanonical (js ''Milk 3% 1.5 L [new] x 6'') = js ''Milk new''"
    by (simp add: normalizer_defs)
  have h: "\<forall>c\<in>set (normalizeCanonical (js ''Milk 3% 1.5 L [new] x 6'')). \<not> is_digit c"
    unfolding v by (simp add: is_digit_def js_def)
  from normalizeCanonical_idempotent_digit_free [OF h] h v show ?thesis
    by (simp add: list_all_iff)
qed

text \<open>
  Claim C7, as stated, fails: \<open>1(g)\<close> is normalised to \<open>1g\<close>, since the bracket stands
  between quantity and unit when the first pass runs, and \<open>1g\<close> is normalised to the
  empty string.
\<close>

theorem normalizeCanonical_not_idempotent:
  "normalizeCanonical (js ''1(g)'') = js ''1g'' \<and>
   normalizeCanonical (normalizeCanonical (js ''1(g)'')) = [] \<and>
   normalizeCanonical (normalizeCanonical (js ''1(g)'')) \<noteq> normalizeCanonical (js ''1(g)'')"
proof -
  have a: "normalizeCanonical (js ''1(g)'') = js ''1g''"
    by (simp add: normalizer_defs)
  have b: "normalizeCanonical (js ''1g'') = []"
    by (simp add: normalizer_defs)
  show ?thesis unfolding a b by (simp add: js_def)
qed

section \<open>The decoder: properties\<close>

lemma item_row_None_iff: "item_row fid sub sid bik it = None \<longleftrightarrow> row_rejected it"
  by (auto simp: item_row_def row_rejected_def clean_name_def opt_string_def Let_def
           split: xmlval.splits)

lemma item_row_SomeD:
  assumes "item_row fid sub sid bik it = Some row"
  shows "item_name row = clean_name it"
    and "canonical_key row = (if normalizeCanonical (clean_name it) = [] then None
                              else Some (normalizeCanonical (clean_name it)))"
    and "is_weighted row = (case bIsWeighted it of Absent \<Rightarrow> None | Val s n \<Rightarrow> Some (s = js ''1''))"
  using assms
  by (auto simp: item_row_def clean_name_def Let_def split: if_splits)

lemma parse_file_item_stage:
  assumes "storage_path f = Some path" and "path \<noteq> []"
    and "storage_download env (file_id f) path = Inr buf" and "isGzip buf"
    and "read_xml env buf = Some doc" and "doc_root doc = Root rt"
    and "storeIdNorm rt f = Some sid"
  shows "parse_file env f w =
     (if toArray (Items_Item rt) = [] then
        Finished (update_status (file_id f) Failed (Some (js ''No Items in XML''))
                    (update_store_id (file_id f) sid w))
      else
        Finished (update_status (file_id f) Parsed None
          (insert_batches env (file_id f)
             (collect_rows (file_id f) (opt_string (nullish (SubChainID rt) (SubChainId rt))) sid
                (case BikoretNo rt of Absent \<Rightarrow> None | Val s n \<Rightarrow> Some n)
                (toArray (Items_Item rt)))
             0 (update_store_id (file_id f) sid w))))"
  using assms by (simp add: parse_file_def Let_def)

lemma collect_rows_all_rejected:
  "\<forall>it\<in>set items. row_rejected it \<Longrightarrow> collect_rows fid sub sid bik items = []"
  by (induction items)
     (auto simp: collect_rows_def List.map_filter_simps
           dest!: item_row_None_iff[THEN iffD2, of _ fid sub sid bik])

lemma insert_batches_Nil: "insert_batches env fid [] i w = w"
  by (simp add: insert_batches.simps)

lemma prices_update_status: "prices (update_status fid st err w) = prices w"
  by (simp add: update_status_def)

lemma prices_update_store_id: "prices (update_store_id fid sid w) = prices w"
  by (simp add: update_store_id_def)

lemma raw_files_update_status:
  "raw_files (update_status fid st err w) =
     map (\<lambda>r. if file_id r = fid then r\<lparr>status := st, error := err\<rparr> else r) (raw_files w)"
  by (simp add: update_status_def)

lemma status_after_update:
  assumes "r \<in> set (raw_files (update_status fid st err w))" and "file_id r = fid"
  shows "status r = st \<and> error r = err"
proof -
  from assms(1) obtain x
    where x: "r = (if file_id x = fid then x\<lparr>status := st, error := err\<rparr> else x)"
    unfolding raw_files_update_status set_map by (rule imageE)
  show ?thesis
  proof (cases "file_id x = fid")
    case True
    with x show ?thesis by simp
  next
    case False
    with x assms(2) show ?thesis by simp
  qed
qed

text \<open>The sample file passes every stage before the items.\<close>

lemma sample_stage:
  "storage_path sample_file =
     Some (js ''yohananof/2026-01-14/009/PriceFull7290803800003-009-202601140501.gz'')"
  "js ''yohananof/2026-01-14/009/PriceFull7290803800003-009-202601140501.gz'' \<noteq> []"
  "storage_download (sample_env [0x1F, 0x8B, 0x08] items err) (file_id sample_file)
     (js ''yohananof/2026-01-14/009/PriceFull7290803800003-009-202601140501.gz'')
     = Inr [0x1F, 0x8B, 0x08]"
  "isGzip [0x1F, 0x8B, 0x08]"
  "read_xml (sample_env [0x1F, 0x8B, 0x08] items err) [0x1F, 0x8B, 0x08]
     = Some \<lparr>root_lc = Root (sample_root items), root_uc = NoRoot\<rparr>"
  "doc_root \<lparr>root_lc = Root (sample_root items), root_uc = NoRoot\<rparr> = Root (sample_root items)"
  "storeIdNorm (sample_root items) sample_file = Some (js ''009'')"
  by (simp_all add: sample_file_def sample_env_def sample_root_def isGzip_def doc_root_def
        storeIdNorm_def opt_string_def padStart_def js_def numeral_2_eq_2)

lemma sample_items:
  "toArray (Items_Item (sample_root items)) = toArray items"
  "opt_string (nullish (SubChainID (sample_root items)) (SubChainId (sample_root items))) = Some (js ''1'')"
  "(case BikoretNo (sample_root items) of Absent \<Rightarrow> None | Val s n \<Rightarrow> Some n) = None"
  "file_id sample_file = 7"
  by (simp_all add: sample_root_def opt_string_def sample_file_def)

lemma sample_rejected: "row_rejected item_no_name" "row_rejected item_no_price"
  by (simp_all add: row_rejected_def clean_name_def item_no_name_def item_no_price_def
        sample_item_def js_def trim_def replace_g.simps match_spaces_def is_space_def isFinite_def)

lemma sample_row: "item_row 7 (Some (js ''1'')) (js ''009'') None item_500g = Some row_500g"
  by (simp add: item_row_def item_500g_def row_500g_def sample_item_def opt_string_def
        numOrNull_def isFinite_def barcode_shaped_def CHAIN_parse_def normalizer_defs)

lemma parse_files_single: "parse_files env [f] w = parse_file env f w"
  by (cases "parse_file env f w") simp_all

lemma sample_selected: "select_downloaded (raw_files sample_world) = [sample_file]"
  by (simp add: select_downloaded_def sample_world_def sample_file_def CHAIN_parse_def js_def)

lemma sample_main:
  "parse_main (sample_env buf items err) sample_world
     = parse_file (sample_env buf items err) sample_file sample_world"
proof -
  have "select_error (sample_env buf items err) = None"
    by (simp add: sample_env_def)
  then show ?thesis
    unfolding parse_main_def sample_selected parse_files_single by simp
qed

lemma sample_statuses:
  "map (\<lambda>r. (status r, error r)) (raw_files (update_status 7 st err (update_store_id 7 sid sample_world)))
     = [(st, err)]"
  by (simp add: update_status_def update_store_id_def sample_world_def sample_file_def)

text \<open>
  Claim C9. A row that the decoder builds has the canonical key null when the name
  normalises to the empty string, and the normalised name otherwise; the key is never the
  empty string.
\<close>

theorem canonical_key_null_not_empty:
  assumes "item_row fid sub sid bik it = Some row"
  shows "(normalizeCanonical (clean_name it) = [] \<longrightarrow> canonical_key row = None) \<and>
         (normalizeCanonical (clean_name it) \<noteq> [] \<longrightarrow>
            canonical_key row = Some (normalizeCanonical (clean_name it))) \<and>
         canonical_key row \<noteq> Some []"
  using item_row_SomeD(2)[OF assms] by simp

text \<open>The item named \<open>500 g\<close>: the name is a quantity and a unit, nothing is left of it.\<close>

theorem canonical_key_null_not_empty_witness:
  "item_row 7 (Some (js ''1'')) (js ''009'') None item_500g = Some row_500g \<and>
   normalizeCanonical (clean_name item_500g) = [] \<and> canonical_key row_500g = None"
proof -
  have n: "normalizeCanonical (clean_name item_500g) = []"
    by (simp add: clean_name_def item_500g_def sample_item_def normalizer_defs)
  from canonical_key_null_not_empty [OF sample_row] n sample_row show ?thesis by simp
qed

text \<open>
  Claim C10. In a row that the decoder builds, \<open>is_weighted\<close> is null exactly when the
  item has no \<open>bIsWeighted\<close> field; when it has one, \<open>is_weighted\<close> tells whether the string
  value of the field is \<open>1\<close>.
\<close>

theorem is_weighted_tristate:
  assumes "item_row fid sub sid bik it = Some row"
  shows "(is_weighted row = None \<longleftrightarrow> bIsWeighted it = Absent) \<and>
         (bIsWeighted it \<noteq> Absent \<longrightarrow>
            is_weighted row = Some (String_of (bIsWeighted it) = js ''1''))"
  using item_row_SomeD(3)[OF assms] by (cases "bIsWeighted it") auto

text \<open>The item named \<open>500 g\<close> has the field, with the value \<open>1\<close>.\<close>

theorem is_weighted_tristate_witness:
  "item_row 7 (Some (js ''1'')) (js ''009'') None item_500g = Some row_500g \<and>
   bIsWeighted item_500g = Val (js ''1'') (Finite 1) \<and> is_weighted row_500g = Some True"
proof -
  have b: "bIsWeighted item_500g = Val (js ''1'') (Finite 1)"
    by (simp add: item_500g_def sample_item_def)
  from is_weighted_tristate [OF sample_row] b sample_row show ?thesis by simp
qed

text \<open>
  Claim C1, as amended. When every item of a file that has reached the items is rejected,
  no row is written for the file, and the ledger row is marked parsed with no error if
  there are items, failed with ``No Items in XML'' if there are none.
\<close>

theorem all_items_rejected_outcome:
  assumes "storage_path f = Some path" and "path \<noteq> []"
    and "storage_download env (file_id f) path = Inr buf" and "isGzip buf"
    and "read_xml env buf = Some doc" and "doc_root doc = Root rt"
    and "storeIdNorm rt f = Some sid"
    and "\<forall>it\<in>set (toArray (Items_Item rt)). row_rejected it"
  shows "prices (world_of (parse_file env f w)) = prices w \<and>
         parse_file env f w =
           Finished (update_status (file_id f)
                       (if toArray (Items_Item rt) = [] then Failed else Parsed)
                       (if toArray (Items_Item rt) = [] then Some (js ''No Items in XML'') else None)
                       (update_store_id (file_id f) sid w))"
proof (cases "toArray (Items_Item rt) = []")
  case True
  then show ?thesis
    by (simp add: parse_file_item_stage[OF assms(1-7)] prices_update_status prices_update_store_id)
next
  case False
  then show ?thesis
    by (simp add: parse_file_item_stage[OF assms(1-7)] collect_rows_all_rejected[OF assms(8)]
          insert_batches_Nil prices_update_status prices_update_store_id)
qed

text \<open>The sample file with two items, one without a name and one without a finite price.\<close>

theorem all_items_rejected_outcome_witness:
  "list_all row_rejected [item_no_name, item_no_price] \<and>
   parse_file (sample_env [0x1F, 0x8B, 0x08] (ItemArray [item_no_name, item_no_price]) None)
      sample_file sample_world
     = Finished (update_status 7 Parsed None (update_store_id 7 (js ''009'') sample_world)) \<and>
   prices (world_of (parse_file
      (sample_env [0x1F, 0x8B, 0x08] (ItemArray [item_no_name, item_no_price]) None)
      sample_file sample_world)) = []"
proof -
  have r: "\<forall>it\<in>set (toArray (Items_Item (sample_root (ItemArray [item_no_name, item_no_price])))).
             row_rejected it"
    by (simp add: sample_items sample_rejected)
  have p: "prices sample_world = []"
    by (simp add: sample_world_def)
  from all_items_rejected_outcome [OF sample_stage r, of None sample_world]
  have "prices (world_of (parse_file
            (sample_env [0x1F, 0x8B, 0x08] (ItemArray [item_no_name, item_no_price]) None)
            sample_file sample_world)) = prices sample_world \<and>
        parse_file (sample_env [0x1F, 0x8B, 0x08] (ItemArray [item_no_name, item_no_price]) None)
            sample_file sample_world
          = Finished (update_status 7 Parsed None (update_store_id 7 (js ''009'') sample_world))"
    by (simp add: sample_items prices_update_status prices_update_store_id)
  then show ?thesis
    by (simp add: p sample_rejected prices_update_status prices_update_store_id)
qed

text \<open>
  Claim C1, as stated, fails. The ledger holds one downloaded file; its XML has two items,
  one without a name and one without a finite price. After the run of the decoder the file
  is parsed with no error, and the table has no row.
\<close>

theorem all_rejected_file_marked_parsed:
  "map (\<lambda>r. (status r, error r))
     (raw_files (world_of (parse_main
        (sample_env [0x1F, 0x8B, 0x08] (ItemArray [item_no_name, item_no_price]) None)
        sample_world))) = [(Parsed, None)] \<and>
   prices (world_of (parse_main
      (sample_env [0x1F, 0x8B, 0x08] (ItemArray [item_no_name, item_no_price]) None)
      sample_world)) = []"
proof -
  have "collect_rows 7 (Some (js ''1'')) (js ''009'') None [item_no_name, item_no_price] = []"
    by (rule collect_rows_all_rejected) (simp add: sample_rejected)
  then have "parse_main
      (sample_env [0x1F, 0x8B, 0x08] (ItemArray [item_no_name, item_no_price]) None)
      sample_world
     = Finished (update_status 7 Parsed None (update_store_id 7 (js ''009'') sample_world))"
    by (simp add: sample_main parse_file_item_stage[OF sample_stage] sample_items insert_batches_Nil)
  moreover have "prices sample_world = []"
    by (simp add: sample_world_def)
  ultimately show ?thesis
    by (simp add: sample_statuses prices_update_status prices_update_store_id)
qed

text \<open>
  Whatever the batches do, a file with at least one item that has reached the batches ends
  parsed with no error: the update after the loop is unconditional.
\<close>

lemma parse_file_ends_parsed:
  assumes "storage_path f = Some path" and "path \<noteq> []"
    and "storage_download env (file_id f) path = Inr buf" and "isGzip buf"
    and "read_xml env buf = Some doc" and "doc_root doc = Root rt"
    and "storeIdNorm rt f = Some sid"
    and "toArray (Items_Item rt) \<noteq> []"
    and "r \<in> set (raw_files (world_of (parse_file env f w)))" and "file_id r = file_id f"
  shows "status r = Parsed \<and> error r = None"
  using assms(8-10) status_after_update
  by (simp add: parse_file_item_stage[OF assms(1-7)])

text \<open>
  Claim C4 (a defect of the code). The ledger holds one downloaded file; its XML has one
  valid item, and the upsert of its only batch fails with the message \<open>boom\<close>. The loop
  over the batches marks the file failed with that message; the update after the loop then
  marks it parsed with no error. After the run of the decoder the file is parsed, and the
  table has no row of it.
\<close>

theorem batch_failure_ends_parsed:
  "collect_rows 7 (Some (js ''1'')) (js ''009'') None [item_500g] = [row_500g] \<and>
   map (\<lambda>r. (status r, error r))
     (raw_files (insert_batches (sample_env [0x1F, 0x8B, 0x08] (OneItem item_500g) (Some (js ''boom'')))
        7 [row_500g] 0 (update_store_id 7 (js ''009'') sample_world)))
     = [(Failed, Some (js ''boom''))] \<and>
   map (\<lambda>r. (status r, error r))
     (raw_files (world_of (parse_main
        (sample_env [0x1F, 0x8B, 0x08] (OneItem item_500g) (Some (js ''boom'')))
        sample_world))) = [(Parsed, None)] \<and>
   prices (world_of (parse_main
      (sample_env [0x1F, 0x8B, 0x08] (OneItem item_500g) (Some (js ''boom'')))
      sample_world)) = []"
proof -
  let ?env = "sample_env [0x1F, 0x8B, 0x08] (OneItem item_500g) (Some (js ''boom''))"
  let ?w1 = "update_store_id 7 (js ''009'') sample_world"
  have rows: "collect_rows 7 (Some (js ''1'')) (js ''009'') None [item_500g] = [row_500g]"
    by (simp add: collect_rows_def List.map_filter_simps sample_row)
  have ue: "upsert_error ?env 7 0 = Some (js ''boom'')"
    by (simp add: sample_env_def)
  have loop: "insert_batches ?env 7 [row_500g] 0 ?w1 = update_status 7 Failed (Some (js ''boom'')) ?w1"
    by (subst insert_batches.simps, simp add: ue, subst insert_batches.simps, simp add: BATCH_def)
  have run: "parse_main ?env sample_world
               = Finished (update_status 7 Parsed None (update_status 7 Failed (Some (js ''boom'')) ?w1))"
    by (simp add: sample_main parse_file_item_stage[OF sample_stage] sample_items rows loop)
  have st1: "map (\<lambda>r. (status r, error r)) (raw_files (update_status 7 Failed (Some (js ''boom'')) ?w1))
               = [(Failed, Some (js ''boom''))]"
    by (rule sample_statuses)
  have st2: "map (\<lambda>r. (status r, error r))
               (raw_files (update_status 7 Parsed None (update_status 7 Failed (Some (js ''boom'')) ?w1)))
               = [(Parsed, None)]"
    by (simp add: update_status_def update_store_id_def sample_world_def sample_file_def)
  have pr: "prices (update_status 7 Parsed None (update_status 7 Failed (Some (js ''boom'')) ?w1)) = []"
    by (simp add: prices_update_status prices_update_store_id sample_world_def)
  show ?thesis by (simp only: rows loop run st1 st2 pr world_of.simps simp_thms)
qed

section \<open>The filename grammar resolver: properties\<close>

lemma list_all_takeWhile: "list_all P (takeWhile P s)"
  by (induction s) auto

lemma match_seq_captures:
  "match_seq p caps s = Some (caps', r) \<Longrightarrow>
   \<exists>new. caps' = caps @ new \<and>
         list_all2 (\<lambda>(lo, hi) c. run_ok lo hi c \<and> list_all is_digit c) (group_bounds p) new"
proof (induction p caps s rule: match_seq.induct)
  case (1 caps s)
  then show ?case by simp
next
  case (2 l as caps s)
  then show ?case by (auto split: option.splits)
next
  case (3 lo hi as caps s)
  then show ?case by (auto split: if_splits)
next
  case (4 lo hi as caps s)
  from 4 obtain new where
    "caps' = (caps @ [takeWhile is_digit s]) @ new" and
    "list_all2 (\<lambda>(lo, hi) c. run_ok lo hi c \<and> list_all is_digit c) (group_bounds as) new" and
    "run_ok lo hi (takeWhile is_digit s)"
    by (auto split: if_splits)
  then show ?case
    by (intro exI[of _ "takeWhile is_digit s # new"]) (simp add: list_all_takeWhile)
qed

lemma find_first_SomeD: "find_first m s = Some x \<Longrightarrow> \<exists>t. m t = Some x"
  by (induction s) (auto split: option.splits)

lemma search_single_group:
  assumes "search p s = Some caps" and "group_bounds p = [(lo, hi)]"
  shows "\<exists>c. caps = [c] \<and> run_ok lo hi c \<and> list_all is_digit c"
proof -
  from assms(1) obtain t r where "match_seq p [] t = Some (caps, r)"
    unfolding search_def by (auto dest!: find_first_SomeD)
  from match_seq_captures[OF this] assms(2) show ?thesis
    by (auto simp: list_all2_Cons1)
qed

lemma first_capture_bounds:
  assumes "first_capture gs s = Some m1" and "\<forall>g\<in>set gs. group_bounds g = [(1, Some 4)]"
  shows "1 \<le> length m1 \<and> length m1 \<le> 4 \<and> list_all is_digit m1"
  using assms
proof (induction gs)
  case Nil
  then show ?case by simp
next
  case (Cons g gs)
  show ?case
  proof (cases "search g s")
    case None
    with Cons show ?thesis by simp
  next
    case (Some caps)
    with Cons.prems search_single_group[OF Some, of 1 "Some 4"] show ?thesis
      by (auto simp: run_ok_def)
  qed
qed

lemma grammars_single_group:
  "\<forall>g\<in>set yohananof_grammars. group_bounds g = [(1, Some 4)]"
  "\<forall>g\<in>set shufersal_grammars. group_bounds g = [(1, Some 4)]"
  by (simp_all add: yohananof_grammars_def shufersal_grammars_def)

lemma length_padStart: "length (padStart n c s) = max n (length s)"
  by (simp add: padStart_def)

lemma digits_padStart: "list_all is_digit s \<Longrightarrow> list_all is_digit (padStart n 0x30 s)"
  by (auto simp: padStart_def is_digit_def list_all_iff)

lemmas resolver_defs =
  extractStoreIdFromFilename_yohananof_def extractStoreIdFromFilename_shufersal_def
  extractStoreIdFromFilename_def yohananof_grammars_def shufersal_grammars_def
  search_def padStart_def run_ok_def is_digit_def upper_def js_def

lemma resolver_pads_capture:
  assumes "grammars = yohananof_grammars \<or> grammars = shufersal_grammars"
  shows "(first_capture grammars x = None \<longrightarrow> extractStoreIdFromFilename grammars x = None) \<and>
         (\<forall>m1. first_capture grammars x = Some m1 \<longrightarrow>
            extractStoreIdFromFilename grammars x = Some (replicate (3 - length m1) 0x30 @ m1) \<and>
            1 \<le> length m1 \<and> length m1 \<le> 4 \<and> list_all is_digit m1 \<and>
            length (replicate (3 - length m1) 0x30 @ m1) = max 3 (length m1) \<and>
            list_all is_digit (replicate (3 - length m1) (0x30 :: jschar) @ m1))"
proof -
  have g: "\<forall>g\<in>set grammars. group_bounds g = [(1, Some 4)]"
    using assms grammars_single_group by blast
  show ?thesis
  proof (intro conjI allI impI)
    assume "first_capture grammars x = None"
    then show "extractStoreIdFromFilename grammars x = None"
      by (simp add: extractStoreIdFromFilename_def)
  next
    fix m1 assume m: "first_capture grammars x = Some m1"
    then show "extractStoreIdFromFilename grammars x = Some (replicate (3 - length m1) 0x30 @ m1)"
      by (simp add: extractStoreIdFromFilename_def padStart_def)
    from first_capture_bounds[OF m g]
    show "1 \<le> length m1" and "length m1 \<le> 4" and d: "list_all is_digit m1" by simp_all
    show "length (replicate (3 - length m1) 0x30 @ m1) = max 3 (length m1)"
      using length_padStart[of 3 "0x30" m1] by (simp only: padStart_def)
    show "list_all is_digit (replicate (3 - length m1) (0x30 :: jschar) @ m1)"
      using digits_padStart[OF d, of 3] by (simp only: padStart_def)
  qed
qed

text \<open>
  Claim C6, as stated, fails where it promises three digits: the first grammar of
  Yohananof captures up to four, and a store numbered 1234 is resolved to \<open>1234\<close>.
\<close>

theorem extractStoreId_four_digits:
  "extractStoreIdFromFilename_yohananof (js ''PriceFull7290803800003-001-1234-202601140501.gz'')
     = Some (js ''1234'') \<and>
   length (js ''1234'') = 4"
  by (simp add: resolver_defs)

section \<open>The ledger: properties\<close>

lemma same_raw_key_iff: "same_raw_key a b \<longleftrightarrow> raw_key a = raw_key b"
  by (auto simp: same_raw_key_def raw_key_def)

lemma raw_key_file_id [simp]: "raw_key (r\<lparr>file_id := i\<rparr>) = raw_key r"
  by (simp add: raw_key_def)

lemma raw_key_fetched_at [simp]: "raw_key (r\<lparr>fetched_at := t\<rparr>) = raw_key r"
  by (simp add: raw_key_def)

lemma upsert_map_keys:
  "map raw_key (map (\<lambda>x. if same_raw_key row x then row\<lparr>file_id := file_id x\<rparr> else x) tbl)
     = map raw_key tbl"
  by (induction tbl) (auto simp: same_raw_key_iff)

lemma raw_files_upsertRawFile:
  "raw_files (upsertRawFile env n row w) =
     (case upsert_error_raw env n of
        Some e \<Rightarrow> raw_files w
      | None \<Rightarrow>
          if list_ex (same_raw_key row) (raw_files w)
          then map (\<lambda>x. if same_raw_key row x then row\<lparr>file_id := file_id x\<rparr> else x) (raw_files w)
          else raw_files w @ [row\<lparr>file_id := fresh_id (raw_files w)\<rparr>])"
  by (simp add: upsertRawFile_def split: option.splits)

lemma upsertRawFile_unique:
  assumes "unique_keys w"
  shows "unique_keys (upsertRawFile env n row w)"
proof (cases "upsert_error_raw env n")
  case (Some e)
  then show ?thesis using assms by (simp add: unique_keys_def raw_files_upsertRawFile)
next
  case None
  show ?thesis
  proof (cases "list_ex (same_raw_key row) (raw_files w)")
    case True
    then show ?thesis using assms None
      by (simp only: unique_keys_def raw_files_upsertRawFile option.case if_True upsert_map_keys)
  next
    case False
    then have "raw_key row \<notin> set (map raw_key (raw_files w))"
      by (auto simp: list_ex_iff same_raw_key_iff)
    then show ?thesis using assms None False
      by (simp add: unique_keys_def raw_files_upsertRawFile)
  qed
qed

text \<open>After an upsert that the database accepted, every row with the key of the written
  row carries its columns (and the id it had, or a new one), and there is such a row.\<close>

lemma upsertRawFile_overwrites:
  assumes "upsert_error_raw env n = None"
  shows "(\<forall>x\<in>set (raw_files (upsertRawFile env n row w)).
            raw_key x = raw_key row \<longrightarrow> x = row\<lparr>file_id := file_id x\<rparr>) \<and>
         raw_key row \<in> set (map raw_key (raw_files (upsertRawFile env n row w)))"
proof (cases "list_ex (same_raw_key row) (raw_files w)")
  case True
  have rf: "raw_files (upsertRawFile env n row w) =
          map (\<lambda>x. if same_raw_key row x then row\<lparr>file_id := file_id x\<rparr> else x) (raw_files w)"
    using assms True by (simp add: raw_files_upsertRawFile)
  have "raw_key row \<in> set (map raw_key (raw_files w))"
    using True by (auto simp: list_ex_iff same_raw_key_iff)
  then have 2: "raw_key row \<in> set (map raw_key (raw_files (upsertRawFile env n row w)))"
    by (simp only: rf upsert_map_keys)
  have 1: "x = row\<lparr>file_id := file_id x\<rparr>"
    if "x \<in> set (raw_files (upsertRawFile env n row w))" and "raw_key x = raw_key row" for x
  proof -
    from that(1) obtain y where y: "x = (if same_raw_key row y then row\<lparr>file_id := file_id y\<rparr> else y)"
      unfolding rf set_map by (rule imageE)
    show ?thesis
    proof (cases "same_raw_key row y")
      case True
      with y show ?thesis by simp
    next
      case False
      with y that(2) show ?thesis by (simp add: same_raw_key_iff)
    qed
  qed
  from 1 2 show ?thesis by blast
next
  case False
  have rf: "raw_files (upsertRawFile env n row w) = raw_files w @ [row\<lparr>file_id := fresh_id (raw_files w)\<rparr>]"
    using assms False by (simp add: raw_files_upsertRawFile)
  have no: "\<forall>x\<in>set (raw_files w). raw_key x \<noteq> raw_key row"
    using False by (auto simp: list_ex_iff same_raw_key_iff)
  have 1: "x = row\<lparr>file_id := file_id x\<rparr>"
    if "x \<in> set (raw_files (upsertRawFile env n row w))" and "raw_key x = raw_key row" for x
  proof -
    from that no have "x = row\<lparr>file_id := fresh_id (raw_files w)\<rparr>"
      unfolding rf by auto
    then show ?thesis by simp
  qed
  have 2: "raw_key row \<in> set (map raw_key (raw_files (upsertRawFile env n row w)))"
    unfolding rf by simp
  from 1 2 show ?thesis by blast
qed

lemma upsertRawFile_idem:
  "upsertRawFile env n row (upsertRawFile env n row w) = upsertRawFile env n row w"
proof (cases "upsert_error_raw env n")
  case (Some e)
  then show ?thesis by (simp add: upsertRawFile_def)
next
  case None
  let ?w' = "upsertRawFile env n row w"
  let ?f = "\<lambda>x. if same_raw_key row x then row\<lparr>file_id := file_id x\<rparr> else x"
  from upsertRawFile_overwrites[OF None, of row w]
  have same: "\<forall>x\<in>set (raw_files ?w'). raw_key x = raw_key row \<longrightarrow> x = row\<lparr>file_id := file_id x\<rparr>"
    and ex: "raw_key row \<in> set (map raw_key (raw_files ?w'))" by blast+
  from ex have "list_ex (same_raw_key row) (raw_files ?w')"
    by (auto simp: list_ex_iff same_raw_key_iff)
  then have "raw_files (upsertRawFile env n row ?w') = map ?f (raw_files ?w')"
    using None by (simp add: raw_files_upsertRawFile)
  also have "\<dots> = raw_files ?w'"
  proof (rule map_idI)
    fix x assume "x \<in> set (raw_files ?w')"
    with same show "?f x = x" by (cases "same_raw_key row x") (simp_all add: same_raw_key_iff)
  qed
  finally have rf: "raw_files (upsertRawFile env n row ?w') = raw_files ?w'" .
  have "upsertRawFile env n row ?w' = ?w'\<lparr>raw_files := raw_files (upsertRawFile env n row ?w')\<rparr>"
    by (simp add: upsertRawFile_def split: option.splits)
  then show ?thesis by (simp add: rf)
qed

section \<open>The collectors over HTTP: properties\<close>

lemma raw_key_raw_row: "raw_key (raw_row ch sid url path sha st err) = (ch, url)"
  by (simp add: raw_key_def raw_row_def)

lemma insert_raw_effect:
  assumes "insert_raw env n row w = (e, w')"
  shows "requested w' = requested w \<and> prices w' = prices w \<and>
         (raw_files w' = raw_files w \<or>
          (\<exists>r. raw_files w' = raw_files w @ [r] \<and> raw_key r = raw_key row \<and>
               status r = status row \<and> error r = error row))"
proof (cases "insert_error env n (status row)")
  case None
  with assms have "w' = w\<lparr>raw_files := raw_files w @
      [row\<lparr>file_id := fresh_id (raw_files w), fetched_at := db_now env n\<rparr>]\<rparr>"
    by (simp add: insert_raw_def)
  then show ?thesis by (simp add: raw_key_def)
next
  case (Some m)
  with assms have "w' = w" by (simp add: insert_raw_def)
  then show ?thesis by simp
qed

lemma insert_raw_snd:
  "requested (snd (insert_raw env n row w)) = requested w \<and>
   prices (snd (insert_raw env n row w)) = prices w \<and>
   (raw_files (snd (insert_raw env n row w)) = raw_files w \<or>
    (\<exists>r. raw_files (snd (insert_raw env n row w)) = raw_files w @ [r] \<and> raw_key r = raw_key row
          \<and> status r = status row \<and> error r = error row))"
  using insert_raw_effect[of env n row w "fst (insert_raw env n row w)" "snd (insert_raw env n row w)"]
  by simp

lemma link_effect_insert:
  "link_effect ch url w
     (snd (insert_raw env n (raw_row ch sid url path sha st err) (w\<lparr>requested := requested w @ [url]\<rparr>)))"
  using insert_raw_snd[of env n "raw_row ch sid url path sha st err" "w\<lparr>requested := requested w @ [url]\<rparr>"]
  by (auto simp: link_effect_def raw_key_raw_row)

lemma link_effect_insert_pair:
  "insert_raw env n (raw_row ch sid url path sha st err) (w\<lparr>requested := requested w @ [url]\<rparr>) = (e, w1)
   \<Longrightarrow> link_effect ch url w w1"
  using link_effect_insert[of ch url w env n sid path sha st err] by simp

lemma collect_link_effect:
  assumes "\<not> list_ex (\<lambda>r. chain r = ch \<and> file_url r = url) (raw_files w)"
    and "\<not> exists_error env n"
  shows "\<exists>b w'. collect_link env ch gs pre n url w = Finished (b, w') \<and> link_effect ch url w w'"
  using assms
  by (auto simp: collect_link_def Let_def link_effect_insert link_effect_insert_pair
           split: sum.splits option.splits prod.splits)

lemma collect_link_existing:
  assumes "list_ex (\<lambda>r. chain r = ch \<and> file_url r = url) (raw_files w)"
  shows "collect_link env ch gs pre n url w = (if exists_error env n then Crashed (False, w) else Finished (False, w))"
  using assms by (simp add: collect_link_def)


lemma run_effect_refl: "run_effect ch w w"
  by (simp add: run_effect_def)

lemma run_effect_trans:
  assumes "run_effect ch w w1" and "run_effect ch w1 w2"
  shows "run_effect ch w w2"
proof -
  from assms(1) obtain new1 reqs1 where 1:
    "raw_files w1 = raw_files w @ new1" "requested w1 = requested w @ reqs1"
    "prices w1 = prices w"
    "\<forall>r\<in>set new1. chain r = ch \<and> raw_key r \<notin> set (map raw_key (raw_files w))"
    "distinct (map raw_key new1)"
    "\<forall>u\<in>set reqs1. (ch, u) \<notin> set (map raw_key (raw_files w))"
    unfolding run_effect_def by blast
  from assms(2) obtain new2 reqs2 where 2:
    "raw_files w2 = raw_files w1 @ new2" "requested w2 = requested w1 @ reqs2"
    "prices w2 = prices w1"
    "\<forall>r\<in>set new2. chain r = ch \<and> raw_key r \<notin> set (map raw_key (raw_files w1))"
    "distinct (map raw_key new2)"
    "\<forall>u\<in>set reqs2. (ch, u) \<notin> set (map raw_key (raw_files w1))"
    unfolding run_effect_def by blast
  have a: "raw_files w2 = raw_files w @ (new1 @ new2)" using 1(1) 2(1) by simp
  have b: "requested w2 = requested w @ (reqs1 @ reqs2)" using 1(2) 2(2) by simp
  have c: "prices w2 = prices w" using 1(3) 2(3) by simp
  have d: "\<forall>r\<in>set (new1 @ new2). chain r = ch \<and> raw_key r \<notin> set (map raw_key (raw_files w))"
    using 1(4) 2(4) 1(1) by auto
  have e: "distinct (map raw_key (new1 @ new2))"
    using 1(5) 2(5) 2(4) 1(1) by auto
  have f: "\<forall>u\<in>set (reqs1 @ reqs2). (ch, u) \<notin> set (map raw_key (raw_files w))"
    using 1(6) 2(6) 1(1) by auto
  show ?thesis unfolding run_effect_def using a b c d e f by blast
qed

lemma no_row_iff:
  "list_ex (\<lambda>r. chain r = ch \<and> file_url r = url) tbl \<longleftrightarrow> (ch, url) \<in> set (map raw_key tbl)"
  by (auto simp: list_ex_iff raw_key_def)

lemma link_effect_run_effect:
  assumes "link_effect ch url w w'" and "(ch, url) \<notin> set (map raw_key (raw_files w))"
  shows "run_effect ch w w'"
proof -
  from assms(1) have r: "requested w' = requested w @ [url]" and p: "prices w' = prices w"
    and f: "raw_files w' = raw_files w \<or> (\<exists>r. raw_files w' = raw_files w @ [r] \<and> raw_key r = (ch, url))"
    unfolding link_effect_def by blast+
  from f show ?thesis
  proof
    assume "raw_files w' = raw_files w"
    then show ?thesis unfolding run_effect_def using r p assms(2)
      by (intro exI[of _ "[]"] exI[of _ "[url]"]) simp
  next
    assume "\<exists>r. raw_files w' = raw_files w @ [r] \<and> raw_key r = (ch, url)"
    then obtain x where x: "raw_files w' = raw_files w @ [x]" "raw_key x = (ch, url)" by blast
    from x(2) have "chain x = ch" by (simp add: raw_key_def)
    then show ?thesis unfolding run_effect_def using r p assms(2) x
      by (intro exI[of _ "[x]"] exI[of _ "[url]"]) simp
  qed
qed

lemma collect_link_run_effect:
  "run_effect ch w (snd (world_of (collect_link env ch gs pre n url w)))"
proof (cases "list_ex (\<lambda>r. chain r = ch \<and> file_url r = url) (raw_files w)")
  case True
  then show ?thesis by (simp add: collect_link_existing run_effect_refl)
next
  case False
  show ?thesis
  proof (cases "exists_error env n")
    case True
    then show ?thesis by (simp add: collect_link_def run_effect_refl)
  next
    case ne: False
    from collect_link_effect[OF False ne, of gs pre] obtain b w'
      where "collect_link env ch gs pre n url w = Finished (b, w')" "link_effect ch url w w'"
      by blast
    then show ?thesis using False link_effect_run_effect by (simp add: no_row_iff)
  qed
qed

lemma collect_links_run_effect:
  "run_effect ch w (snd (snd (snd (world_of (collect_links env ch gs pre maxd links (d, n, w))))))"
proof (induction links arbitrary: d n w)
  case Nil
  then show ?case by (simp add: run_effect_refl)
next
  case (Cons url links)
  show ?case
  proof (cases "maxd \<le> d")
    case True
    then show ?thesis by (simp add: run_effect_refl)
  next
    case False
    show ?thesis
    proof (cases "collect_link env ch gs pre n url w")
      case (Crashed x)
      with collect_link_run_effect[of ch w env gs pre n url] False show ?thesis
        by (cases x) simp
    next
      case (Finished x)
      obtain b w1 where x: "x = (b, w1)" by (cases x)
      from collect_link_run_effect[of ch w env gs pre n url] Finished x
      have 1: "run_effect ch w w1" by simp
      from Cons.IH[of w1 "if b then Suc d else d" "Suc n"]
      have 2: "run_effect ch w1 (snd (snd (snd (world_of (collect_links env ch gs pre maxd links
                 (if b then Suc d else d, Suc n, w1))))))" .
      from run_effect_trans[OF 1 2] Finished x False show ?thesis by simp
    qed
  qed
qed

lemma runYohananofCollector_http_effect:
  "run_effect CHAIN_yochananof w (snd (world_of (runYohananofCollector_http env maxd links w)))"
proof (cases "links = []")
  case True
  then show ?thesis by (simp add: runYohananofCollector_http_def run_effect_refl)
next
  case False
  let ?r = "collect_links env CHAIN_yochananof yohananof_grammars (js ''PriceFull_'') maxd
              (filter is_pricefull_gz links) (0, 0, w)"
  from collect_links_run_effect[of CHAIN_yochananof w env yohananof_grammars "js ''PriceFull_''" maxd
         "filter is_pricefull_gz links" 0 0]
  have "run_effect CHAIN_yochananof w (snd (snd (snd (world_of ?r))))" .
  then show ?thesis using False
    by (cases ?r) (auto simp: runYohananofCollector_http_def split: prod.splits)
qed

lemma shufersal_pages_effect:
  "run_effect CHAIN_shufersal w (snd (world_of (shufersal_pages env maxp maxd page (d, n, w))))"
proof (induction env maxp maxd page "(d, n, w)" arbitrary: d n w rule: shufersal_pages.induct)
  case (1 env maxPages maxDownloads page downloaded n w)
  show ?case
  proof (cases "page \<le> maxPages")
    case False
    then show ?thesis by (simp add: shufersal_pages.simps run_effect_refl)
  next
    case le: True
    show ?thesis
    proof (cases "page_links env page")
      case None
      with le show ?thesis by (simp add: shufersal_pages.simps run_effect_refl)
    next
      case (Some links)
      show ?thesis
      proof (cases "links = []")
        case True
        with le Some show ?thesis by (simp add: shufersal_pages.simps run_effect_refl)
      next
        case ne: False
        let ?r = "collect_links env CHAIN_shufersal shufersal_grammars (js ''Price_'')
                    maxDownloads links (downloaded, n, w)"
        have e: "run_effect CHAIN_shufersal w (snd (snd (snd (world_of ?r))))"
          by (rule collect_links_run_effect)
        show ?thesis
        proof (cases ?r)
          case (Crashed x)
          with e le Some ne show ?thesis
            by (cases x) (auto simp: shufersal_pages.simps[of env maxPages maxDownloads page])
        next
          case (Finished x)
          obtain capped d' n' w' where x: "x = (capped, d', n', w')" by (cases x) auto
          show ?thesis
          proof (cases capped)
            case True
            with e le Some ne Finished x show ?thesis
              by (simp add: shufersal_pages.simps[of env maxPages maxDownloads page])
          next
            case False
            have "run_effect CHAIN_shufersal w'
                    (snd (world_of (shufersal_pages env maxPages maxDownloads (Suc page) (d', n', w'))))"
              using "1.hyps"[OF le Some ne Finished, of capped "(d', n', w')" d' "(n', w')" n' w']
                x False by simp
            with e Finished x have "run_effect CHAIN_shufersal w
                    (snd (world_of (shufersal_pages env maxPages maxDownloads (Suc page) (d', n', w'))))"
              by (auto intro: run_effect_trans)
            with le Some ne Finished x False show ?thesis
              by (simp add: shufersal_pages.simps[of env maxPages maxDownloads page])
          qed
        qed
      qed
    qed
  qed
qed

lemma runShufersalCollector_effect:
  "run_effect CHAIN_shufersal w (snd (world_of (runShufersalCollector env maxp maxd w)))"
  unfolding runShufersalCollector_def by (rule shufersal_pages_effect)

lemma js_eq_Nil: "js s = [] \<longleftrightarrow> s = []"
  by (simp add: js_def)

lemma shufersal_name_resolves:
  "extractStoreIdFromFilename shufersal_grammars (js ''PriceFull7290027600007-001-202601140300.gz'')
     = Some (js ''001'')"
  by (simp add: resolver_defs)

lemma sample_filename:
  "last_segment (js ''/pricefull/PriceFull7290027600007-001-202601140300.gz'')
     = js ''PriceFull7290027600007-001-202601140300.gz''"
  "ends_with_gz (js ''PriceFull7290027600007-001-202601140300.gz'')"
  "js ''PriceFull7290027600007-001-202601140300.gz'' \<noteq> []"
  "match_disposition [] = None"
  by (simp_all add: last_segment_def ends_with_gz_def js_def upper_def match_disposition_def)

lemma sample_date:
  "dec 2026 = js ''2026''" "padStart 2 0x30 (dec 1) = js ''01''" "padStart 2 0x30 (dec 14) = js ''14''"
  by (simp_all add: dec.simps padStart_def js_def)

lemma shufersal_sample_run:
  "map (\<lambda>r. (status r, error r))
     (raw_files (snd (world_of (collect_link (sample_collector_env bd) CHAIN_shufersal
        shufersal_grammars (js ''Price_'') 0 shufersal_url empty_world))))
     = [(Downloaded, None)]"
  by (simp add: collect_link_def sample_collector_env_def empty_world_def Let_def sample_filename
        shufersal_name_resolves sample_date insert_raw_def raw_row_def js_eq_Nil)

lemma not_gzip_signature: "take 2 buf \<noteq> [0x1F, 0x8B] \<Longrightarrow> \<not> isGzip buf"
proof
  assume t: "take 2 buf \<noteq> [0x1F, 0x8B]" and g: "isGzip buf"
  from g obtain a b rest where "buf = a # b # rest"
    by (cases buf; cases "tl buf") (auto simp: isGzip_def)
  with g t show False by (simp add: isGzip_def numeral_2_eq_2)
qed

lemma unique_keys_requested: "unique_keys (w\<lparr>requested := x\<rparr>) = unique_keys w"
  by (simp add: unique_keys_def)

lemma curl_links_unique:
  "unique_keys w \<Longrightarrow> unique_keys (snd (world_of (curl_links env urls (d, n, w))))"
proof (induction urls arbitrary: d n w)
  case Nil
  then show ?case by simp
next
  case (Cons url urls)
  have step: "unique_keys (snd (world_of (curl_links env urls
                 (d', Suc n, upsertRawFile env n row (w\<lparr>requested := requested w @ [url]\<rparr>)))))"
    for d' row
    by (intro Cons.IH upsertRawFile_unique) (simp add: unique_keys_requested Cons.prems)
  show ?case
  proof (cases "parsePriceFullFilenameFromUrl env url")
    case None
    then show ?thesis using Cons.prems by simp
  next
    case (Some t)
    obtain filename storeId date where t: "t = (filename, storeId, date)" by (cases t) auto
    show ?thesis
    proof (cases "curl_download env n url")
      case None
      then show ?thesis using Some t Cons.prems by (simp add: unique_keys_requested)
    next
      case buf: (Some fileBuf)
      show ?thesis
        using Some t buf step
        by (simp add: Let_def split: option.splits)
    qed
  qed
qed

text \<open>The pass of the loop of the collector with curl over a URL whose download is not a
  gzip file.\<close>

lemma curl_links_not_gzip:
  assumes "parsePriceFullFilenameFromUrl env url = Some (filename, storeId, date)"
    and "curl_download env n url = Some buf" and "\<not> isGzip buf"
  shows "curl_links env (url # urls) (d, n, w) =
           curl_links env urls (d, Suc n,
             upsertRawFile env n
               \<lparr>file_id = 0, chain = CHAIN_yohananof, store_id = Some storeId, file_url = url,
                storage_path = Some (js ''yohananof/'' @ date @ js ''/'' @ storeId @ js ''/'' @ filename),
                sha256 = None, fetched_at = db_now env n, status = Failed,
                error = Some (js ''Download returned non-gzip content (likely HTML login/redirect)'')\<rparr>
               (w\<lparr>requested := requested w @ [url]\<rparr>))"
  using assms by (simp add: Let_def)

lemma parse_file_not_gzip:
  assumes "storage_path f = Some path" and "path \<noteq> []"
    and "storage_download env (file_id f) path = Inr buf" and "\<not> isGzip buf"
  shows "parse_file env f w =
           Finished (update_status (file_id f) Failed
                       (Some (js ''Not a gzip file (magic bytes missing)'')) w)"
  using assms by (simp add: parse_file_def)

lemma sample_parse:
  "parsePriceFullFilenameFromUrl (sample_collector_env bd) yohananof_url
     = Some (js ''PriceFull7290803800003-009-202601140501.gz'', js ''009'', js ''2026-01-14'')"
  by (simp add: parsePriceFullFilenameFromUrl_def sample_collector_env_def run_ok_def is_digit_def
        upper_def js_def)

lemma run_effect_existing:
  assumes "run_effect ch w w'" and "(ch, url) \<in> set (map raw_key (raw_files w))"
  shows "count_list (requested w') url = count_list (requested w) url \<and>
         filter (\<lambda>r. raw_key r = (ch, url)) (raw_files w') =
         filter (\<lambda>r. raw_key r = (ch, url)) (raw_files w)"
proof -
  from assms(1) obtain new reqs where e:
    "raw_files w' = raw_files w @ new" "requested w' = requested w @ reqs"
    "\<forall>r\<in>set new. chain r = ch \<and> raw_key r \<notin> set (map raw_key (raw_files w))"
    "\<forall>u\<in>set reqs. (ch, u) \<notin> set (map raw_key (raw_files w))"
    unfolding run_effect_def by blast
  from e(4) assms(2) have "url \<notin> set reqs" by blast
  then have 1: "count_list reqs url = 0" by (simp add: count_list_0_iff)
  from e(3) assms(2) have "\<forall>r\<in>set new. raw_key r \<noteq> (ch, url)" by metis
  then have 2: "filter (\<lambda>r. raw_key r = (ch, url)) new = []" by (simp add: filter_empty_conv)
  from 1 2 e(1,2) show ?thesis by simp
qed

lemma run_effect_unique:
  assumes "run_effect ch w w'" and "unique_keys w"
  shows "unique_keys w'"
proof -
  from assms(1) obtain new where e:
    "raw_files w' = raw_files w @ new"
    "\<forall>r\<in>set new. chain r = ch \<and> raw_key r \<notin> set (map raw_key (raw_files w))"
    "distinct (map raw_key new)"
    unfolding run_effect_def by blast
  from e(2) have "set (map raw_key (raw_files w)) \<inter> set (map raw_key new) = {}" by auto
  with e(1,3) assms(2) show ?thesis by (simp add: unique_keys_def)
qed

section \<open>The claims about the ledger and the downloads\<close>

text \<open>
  Claim C3, as amended. \<open>upsertRawFile\<close>, the write of the collector with curl, is an
  idempotent upsert on the key (chain, URL): a second write of the same row changes
  nothing, a write keeps the keys of the ledger unique, and after a write that the database
  accepted the rows with that key carry the written columns. A run of any of the three
  collectors keeps the keys unique; the two collectors over HTTP insert, and only where the
  ledger has no row for the URL: where it has one, the pass of their loop writes nothing.
\<close>

theorem ledger_writes_keep_keys_unique:
  "upsertRawFile env n row (upsertRawFile env n row w) = upsertRawFile env n row w \<and>
   (unique_keys w \<longrightarrow> unique_keys (upsertRawFile env n row w)) \<and>
   (upsert_error_raw env n = None \<longrightarrow>
      (\<forall>x\<in>set (raw_files (upsertRawFile env n row w)).
          raw_key x = raw_key row \<longrightarrow> x = row\<lparr>file_id := file_id x\<rparr>) \<and>
      raw_key row \<in> set (map raw_key (raw_files (upsertRawFile env n row w)))) \<and>
   (unique_keys w \<longrightarrow>
      unique_keys (snd (world_of (runYohananofCollector env maxDownloads discovered w))) \<and>
      unique_keys (snd (world_of (runShufersalCollector env maxPages maxDownloads w))) \<and>
      unique_keys (snd (world_of (runYohananofCollector_http env maxDownloads links w)))) \<and>
   (list_ex (\<lambda>r. chain r = ch \<and> file_url r = url) (raw_files w) \<longrightarrow>
      world_of (collect_link env ch grammars prefix n url w) = (False, w))"
proof (intro conjI impI)
  show "world_of (collect_link env ch grammars prefix n url w) = (False, w)"
    if "list_ex (\<lambda>r. chain r = ch \<and> file_url r = url) (raw_files w)"
    using that by (simp add: collect_link_existing)
  show "upsertRawFile env n row (upsertRawFile env n row w) = upsertRawFile env n row w"
    by (rule upsertRawFile_idem)
  show "unique_keys (upsertRawFile env n row w)" if "unique_keys w"
    using that by (rule upsertRawFile_unique)
  show "\<forall>x\<in>set (raw_files (upsertRawFile env n row w)).
          raw_key x = raw_key row \<longrightarrow> x = row\<lparr>file_id := file_id x\<rparr>"
    and "raw_key row \<in> set (map raw_key (raw_files (upsertRawFile env n row w)))"
    if "upsert_error_raw env n = None"
    using upsertRawFile_overwrites[OF that] by blast+
  show "unique_keys (snd (world_of (runYohananofCollector env maxDownloads discovered w)))"
    if "unique_keys w"
    unfolding runYohananofCollector_def using that by (rule curl_links_unique)
  show "unique_keys (snd (world_of (runShufersalCollector env maxPages maxDownloads w)))"
    if "unique_keys w"
    using runShufersalCollector_effect that by (rule run_effect_unique)
  show "unique_keys (snd (world_of (runYohananofCollector_http env maxDownloads links w)))"
    if "unique_keys w"
    using runYohananofCollector_http_effect that by (rule run_effect_unique)
qed

text \<open>The ledger holds a failed row for the URL of Yohananof; the collector downloads a
  gzip file and writes the row again, as downloaded, under the id the row had.\<close>

theorem ledger_writes_keep_keys_unique_witness:
  "unique_keys (one_row_world CHAIN_yohananof yohananof_url Failed (Some (js ''Download HTTP 503''))) \<and>
   upsert_error_raw (sample_collector_env [0x1F, 0x8B, 0x08]) 0 = None \<and>
   map (\<lambda>r. (file_id r, status r, error r))
     (raw_files (upsertRawFile (sample_collector_env [0x1F, 0x8B, 0x08]) 0
        (ledger_row CHAIN_yohananof yohananof_url Downloaded None)
        (one_row_world CHAIN_yohananof yohananof_url Failed (Some (js ''Download HTTP 503'')))))
     = [(7, Downloaded, None)] \<and>
   unique_keys (upsertRawFile (sample_collector_env [0x1F, 0x8B, 0x08]) 0
        (ledger_row CHAIN_yohananof yohananof_url Downloaded None)
        (one_row_world CHAIN_yohananof yohananof_url Failed (Some (js ''Download HTTP 503''))))"
proof -
  let ?w = "one_row_world CHAIN_yohananof yohananof_url Failed (Some (js ''Download HTTP 503''))"
  let ?env = "sample_collector_env [0x1F, 0x8B, 0x08]"
  let ?row = "ledger_row CHAIN_yohananof yohananof_url Downloaded None"
  have u: "unique_keys ?w"
    by (simp add: unique_keys_def one_row_world_def)
  have e: "upsert_error_raw ?env 0 = None"
    by (simp add: sample_collector_env_def)
  have v: "map (\<lambda>r. (file_id r, status r, error r)) (raw_files (upsertRawFile ?env 0 ?row ?w))
             = [(7, Downloaded, None)]"
    by (simp add: raw_files_upsertRawFile e one_row_world_def ledger_row_def same_raw_key_def)
  from ledger_writes_keep_keys_unique [of ?env 0 ?row ?w] u e v show ?thesis by simp
qed

text \<open>
  Claim C3, as stated, fails for the collectors over HTTP. The ledger holds a failed row
  for a URL of Shufersal. A new attempt, in a world where the download would succeed (with
  an empty ledger it ends downloaded), writes nothing: the row stays failed.
\<close>

theorem retried_attempt_not_overwritten:
  "collect_link (sample_collector_env [0x1F, 0x8B, 0x08]) CHAIN_shufersal shufersal_grammars
      (js ''Price_'') 0 shufersal_url
      (one_row_world CHAIN_shufersal shufersal_url Failed (Some (js ''Download HTTP 503'')))
     = Finished (False, one_row_world CHAIN_shufersal shufersal_url Failed (Some (js ''Download HTTP 503''))) \<and>
   map (\<lambda>r. (status r, error r))
     (raw_files (one_row_world CHAIN_shufersal shufersal_url Failed (Some (js ''Download HTTP 503''))))
     = [(Failed, Some (js ''Download HTTP 503''))] \<and>
   map (\<lambda>r. (status r, error r))
     (raw_files (snd (world_of (collect_link (sample_collector_env [0x1F, 0x8B, 0x08]) CHAIN_shufersal
        shufersal_grammars (js ''Price_'') 0 shufersal_url empty_world))))
     = [(Downloaded, None)]"
proof -
  have x: "list_ex (\<lambda>r. chain r = CHAIN_shufersal \<and> file_url r = shufersal_url)
             (raw_files (one_row_world CHAIN_shufersal shufersal_url Failed (Some (js ''Download HTTP 503''))))"
    by (simp add: one_row_world_def ledger_row_def)
  have e: "\<not> exists_error (sample_collector_env [0x1F, 0x8B, 0x08]) 0"
    by (simp add: sample_collector_env_def)
  have s: "map (\<lambda>r. (status r, error r))
     (raw_files (one_row_world CHAIN_shufersal shufersal_url Failed (Some (js ''Download HTTP 503''))))
     = [(Failed, Some (js ''Download HTTP 503''))]"
    by (simp add: one_row_world_def ledger_row_def)
  show ?thesis
    by (simp only: collect_link_existing[OF x] e if_False s shufersal_sample_run simp_thms)
qed

text \<open>
  Claim C5, as amended. When the ledger holds a row for a URL under the chain of a
  collector over HTTP, a run of that collector (Shufersal, or Yohananof over HTTP) makes no
  request for the URL and leaves the rows with that key as they are.
\<close>

theorem existing_url_not_fetched:
  assumes "w1 = snd (world_of (runShufersalCollector env maxPages maxDownloads w))"
    and "w2 = snd (world_of (runYohananofCollector_http env maxDownloads links w))"
  shows "((CHAIN_shufersal, url) \<in> set (map raw_key (raw_files w)) \<longrightarrow>
            count_list (requested w1) url = count_list (requested w) url \<and>
            filter (\<lambda>r. raw_key r = (CHAIN_shufersal, url)) (raw_files w1) =
            filter (\<lambda>r. raw_key r = (CHAIN_shufersal, url)) (raw_files w)) \<and>
         ((CHAIN_yochananof, url) \<in> set (map raw_key (raw_files w)) \<longrightarrow>
            count_list (requested w2) url = count_list (requested w) url \<and>
            filter (\<lambda>r. raw_key r = (CHAIN_yochananof, url)) (raw_files w2) =
            filter (\<lambda>r. raw_key r = (CHAIN_yochananof, url)) (raw_files w))"
  unfolding assms
  using run_effect_existing[OF runShufersalCollector_effect]
        run_effect_existing[OF runYohananofCollector_http_effect]
  by blast

text \<open>The ledger holds a failed row for the URL that the first page of Shufersal lists.\<close>

theorem existing_url_not_fetched_witness:
  "(CHAIN_shufersal, shufersal_url) \<in> set (map raw_key (raw_files
      (one_row_world CHAIN_shufersal shufersal_url Failed (Some (js ''Download HTTP 503''))))) \<and>
   page_links (sample_collector_env [0x1F, 0x8B, 0x08]) 1 = Some [shufersal_url] \<and>
   count_list (requested (snd (world_of (runShufersalCollector (sample_collector_env [0x1F, 0x8B, 0x08]) 10 50
      (one_row_world CHAIN_shufersal shufersal_url Failed (Some (js ''Download HTTP 503''))))))) shufersal_url = 0 \<and>
   filter (\<lambda>r. raw_key r = (CHAIN_shufersal, shufersal_url))
     (raw_files (snd (world_of (runShufersalCollector (sample_collector_env [0x1F, 0x8B, 0x08]) 10 50
      (one_row_world CHAIN_shufersal shufersal_url Failed (Some (js ''Download HTTP 503'')))))))
     = [ledger_row CHAIN_shufersal shufersal_url Failed (Some (js ''Download HTTP 503''))]"
proof -
  let ?w = "one_row_world CHAIN_shufersal shufersal_url Failed (Some (js ''Download HTTP 503''))"
  let ?env = "sample_collector_env [0x1F, 0x8B, 0x08]"
  have k: "(CHAIN_shufersal, shufersal_url) \<in> set (map raw_key (raw_files ?w))"
    by (simp add: one_row_world_def ledger_row_def raw_key_def)
  have p: "page_links ?env 1 = Some [shufersal_url]"
    by (simp add: sample_collector_env_def)
  have r: "count_list (requested ?w) shufersal_url = 0"
    by (simp add: one_row_world_def)
  have f: "filter (\<lambda>r. raw_key r = (CHAIN_shufersal, shufersal_url)) (raw_files ?w)
             = [ledger_row CHAIN_shufersal shufersal_url Failed (Some (js ''Download HTTP 503''))]"
    by (simp add: one_row_world_def ledger_row_def raw_key_def)
  from existing_url_not_fetched [where url = shufersal_url and env = ?env and maxPages = 10
         and maxDownloads = 50 and w = ?w, OF refl refl] k p r f
  show ?thesis by simp
qed

text \<open>
  Claim C5, as stated, fails for the collector of Yohananof that downloads with curl: it
  has no check of the ledger. The ledger holds a downloaded row for the URL; the run
  requests the URL again, and as the answer is an HTML page this time, writes the row again
  as failed.
\<close>

theorem curl_collector_downloads_again:
  "map (\<lambda>r. (status r, error r))
     (raw_files (one_row_world CHAIN_yohananof yohananof_url Downloaded None)) = [(Downloaded, None)] \<and>
   requested (snd (world_of (runYohananofCollector (sample_collector_env html_body) 50 [yohananof_url]
      (one_row_world CHAIN_yohananof yohananof_url Downloaded None)))) = [yohananof_url] \<and>
   map (\<lambda>r. (status r, error r))
     (raw_files (snd (world_of (runYohananofCollector (sample_collector_env html_body) 50 [yohananof_url]
        (one_row_world CHAIN_yohananof yohananof_url Downloaded None)))))
     = [(Failed, Some (js ''Download returned non-gzip content (likely HTML login/redirect)''))]"
proof -
  let ?w = "one_row_world CHAIN_yohananof yohananof_url Downloaded None"
  let ?env = "sample_collector_env html_body"
  have c: "curl_download ?env 0 yohananof_url = Some html_body"
    by (simp add: sample_collector_env_def)
  have g: "\<not> isGzip html_body"
    by (simp add: isGzip_def html_body_def)
  have e: "upsert_error_raw ?env 0 = None"
    by (simp add: sample_collector_env_def)
  have take50: "take 50 [yohananof_url] = [yohananof_url]"
    by simp
  have run: "runYohananofCollector ?env 50 [yohananof_url] ?w =
     Finished (0, upsertRawFile ?env 0
               \<lparr>file_id = 0, chain = CHAIN_yohananof, store_id = Some (js ''009''), file_url = yohananof_url,
                storage_path = Some (js ''yohananof/'' @ js ''2026-01-14'' @ js ''/'' @ js ''009'' @ js ''/'' @
                                 js ''PriceFull7290803800003-009-202601140501.gz''),
                sha256 = None, fetched_at = db_now ?env 0, status = Failed,
                error = Some (js ''Download returned non-gzip content (likely HTML login/redirect)'')\<rparr>
               (?w\<lparr>requested := requested ?w @ [yohananof_url]\<rparr>))"
    unfolding runYohananofCollector_def take50 curl_links_not_gzip[OF sample_parse c g]
    by (simp only: curl_links.simps(1))
  show ?thesis unfolding run
    by (simp add: raw_files_upsertRawFile e upsertRawFile_def one_row_world_def ledger_row_def
          same_raw_key_def)
qed

text \<open>
  Claim C2, as amended. Bytes that do not start with the gzip signature fail the test of
  the collector with curl and of the decoder. The collector writes the attempt to the
  ledger as failed, with a fixed message and no hash, uploads nothing and does not count
  it; the decoder marks the file failed, with a fixed message, and writes no price row.
  (The first bytes go to the log only; the collectors over HTTP do not look at the bytes.)
\<close>

theorem non_gzip_recorded_failed:
  assumes "take 2 buf \<noteq> [0x1F, 0x8B]"
  shows "\<not> isGzip buf \<and>
    (parsePriceFullFilenameFromUrl cenv url = Some (filename, storeId, date) \<longrightarrow>
     curl_download cenv n url = Some buf \<longrightarrow>
       curl_links cenv (url # urls) (d, n, w) =
         curl_links cenv urls (d, Suc n,
           upsertRawFile cenv n
             \<lparr>file_id = 0, chain = CHAIN_yohananof, store_id = Some storeId, file_url = url,
              storage_path = Some (js ''yohananof/'' @ date @ js ''/'' @ storeId @ js ''/'' @ filename),
              sha256 = None, fetched_at = db_now cenv n, status = Failed,
              error = Some (js ''Download returned non-gzip content (likely HTML login/redirect)'')\<rparr>
             (w\<lparr>requested := requested w @ [url]\<rparr>))) \<and>
    (storage_path f = Some path \<longrightarrow> path \<noteq> [] \<longrightarrow>
     storage_download denv (file_id f) path = Inr buf \<longrightarrow>
       parse_file denv f w =
         Finished (update_status (file_id f) Failed
                     (Some (js ''Not a gzip file (magic bytes missing)'')) w) \<and>
       prices (world_of (parse_file denv f w)) = prices w)"
proof -
  have g: "\<not> isGzip buf" using assms by (rule not_gzip_signature)
  show ?thesis
  proof (intro conjI impI)
    show "\<not> isGzip buf" by (rule g)
  next
    assume "parsePriceFullFilenameFromUrl cenv url = Some (filename, storeId, date)"
      and "curl_download cenv n url = Some buf"
    then show "curl_links cenv (url # urls) (d, n, w) =
         curl_links cenv urls (d, Suc n,
           upsertRawFile cenv n
             \<lparr>file_id = 0, chain = CHAIN_yohananof, store_id = Some storeId, file_url = url,
              storage_path = Some (js ''yohananof/'' @ date @ js ''/'' @ storeId @ js ''/'' @ filename),
              sha256 = None, fetched_at = db_now cenv n, status = Failed,
              error = Some (js ''Download returned non-gzip content (likely HTML login/redirect)'')\<rparr>
             (w\<lparr>requested := requested w @ [url]\<rparr>))"
      using g by (rule curl_links_not_gzip)
  next
    assume a: "storage_path f = Some path" "path \<noteq> []" "storage_download denv (file_id f) path = Inr buf"
    show "parse_file denv f w =
         Finished (update_status (file_id f) Failed
                     (Some (js ''Not a gzip file (magic bytes missing)'')) w)"
      using a g by (rule parse_file_not_gzip)
    then show "prices (world_of (parse_file denv f w)) = prices w"
      by (simp add: prices_update_status)
  qed
qed

text \<open>The sample file of the decoder, stored as the HTML page of a login form.\<close>

theorem non_gzip_recorded_failed_witness:
  "take 2 html_body \<noteq> [0x1F, 0x8B] \<and>
   map (\<lambda>r. (status r, error r))
     (raw_files (world_of (parse_file (sample_env html_body NoItem None) sample_file sample_world)))
     = [(Failed, Some (js ''Not a gzip file (magic bytes missing)''))] \<and>
   prices (world_of (parse_file (sample_env html_body NoItem None) sample_file sample_world)) = []"
proof -
  have t: "take 2 html_body \<noteq> [0x1F, 0x8B]"
    by (simp add: html_body_def)
  have d: "storage_download (sample_env html_body NoItem None) (file_id sample_file)
             (js ''yohananof/2026-01-14/009/PriceFull7290803800003-009-202601140501.gz'') = Inr html_body"
    by (simp add: sample_env_def)
  have s: "map (\<lambda>r. (status r, error r))
             (raw_files (update_status (file_id sample_file) Failed
                (Some (js ''Not a gzip file (magic bytes missing)'')) sample_world))
             = [(Failed, Some (js ''Not a gzip file (magic bytes missing)''))]"
    by (simp add: update_status_def sample_world_def)
  have p: "prices sample_world = []"
    by (simp add: sample_world_def)
  from non_gzip_recorded_failed [OF t, where w = sample_world and f = sample_file
         and path = "js ''yohananof/2026-01-14/009/PriceFull7290803800003-009-202601140501.gz''"
         and denv = "sample_env html_body NoItem None"]
       sample_stage(1,2) d
  have "parse_file (sample_env html_body NoItem None) sample_file sample_world =
          Finished (update_status (file_id sample_file) Failed
                     (Some (js ''Not a gzip file (magic bytes missing)'')) sample_world) \<and>
        prices (world_of (parse_file (sample_env html_body NoItem None) sample_file sample_world))
          = prices sample_world"
    by blast
  with t s p show ?thesis by (simp add: prices_update_status)
qed

text \<open>
  Claim C2, as stated, fails for the collectors over HTTP, which have no test of the
  signature: the collector of Shufersal records an HTML page as downloaded.
\<close>

theorem html_recorded_downloaded:
  "take 2 html_body \<noteq> [0x1F, 0x8B] \<and>
   map (\<lambda>r. (status r, error r))
     (raw_files (snd (world_of (collect_link (sample_collector_env html_body) CHAIN_shufersal
        shufersal_grammars (js ''Price_'') 0 shufersal_url empty_world))))
     = [(Downloaded, None)]"
  by (simp add: shufersal_sample_run html_body_def)

section \<open>The daily aggregator: properties\<close>

lemma stats_key_group_stats: "stats_key (group_stats k grp) = k"
  by (simp add: stats_key_def group_stats_def Let_def)

lemma aggregates_group_stats:
  "aggregates (group_stats k grp) =
     (round2 (sum_list (map sp_price grp) / of_nat (length grp)), length grp,
      Min (set (map sp_price grp)), Max (set (map sp_price grp)))"
  by (simp add: aggregates_def group_stats_def Let_def)

lemma daily_select_keys:
  "map stats_key (daily_select now tbl) = remdups (map group_key (filter (in_window now) tbl))"
  by (simp add: daily_select_def Let_def stats_key_group_stats comp_def)

lemma daily_select_member:
  assumes "k \<in> set (map group_key (filter (in_window now) tbl))"
  shows "group_stats k (filter (\<lambda>r. group_key r = k) (filter (in_window now) tbl))
           \<in> set (daily_select now tbl)"
  using assms by (simp add: daily_select_def Let_def image_iff) blast

text \<open>One upsert into the statistics.\<close>

lemma stats_key_update:
  "stats_key (x\<lparr>avg_price := a, sample_count := c, min_price := mn, max_price := mx\<rparr>) = stats_key x"
  by (simp add: stats_key_def)

lemma aggregates_update:
  "aggregates (x\<lparr>avg_price := avg_price s, sample_count := sample_count s,
                 min_price := min_price s, max_price := max_price s\<rparr>) = aggregates s"
  by (simp add: aggregates_def)

lemma upsert_stats_sets: "holds_stats (stats_key s) (aggregates s) (upsert_stats tbl s)"
proof (cases "list_ex (\<lambda>x. stats_key x = stats_key s) tbl")
  case False
  then have "\<forall>x\<in>set tbl. stats_key x \<noteq> stats_key s" by (simp add: list_ex_iff)
  then show ?thesis using False by (auto simp: holds_stats_def upsert_stats_def)
next
  case True
  let ?f = "\<lambda>x. if stats_key x = stats_key s
                  then x\<lparr>avg_price := avg_price s, sample_count := sample_count s,
                         min_price := min_price s, max_price := max_price s\<rparr>
                  else x"
  have u: "upsert_stats tbl s = map ?f tbl" using True by (simp add: upsert_stats_def)
  have k: "stats_key (?f x) = stats_key x" for x by (simp add: stats_key_update)
  have 1: "stats_key s \<in> set (map stats_key (map ?f tbl))"
    using True by (simp add: comp_def k list_ex_iff image_iff) metis
  have 2: "aggregates y = aggregates s" if "y \<in> set (map ?f tbl)" "stats_key y = stats_key s" for y
  proof -
    from that(1) obtain x where x: "y = ?f x" by (auto simp only: set_map)
    with that(2) k[of x] have "stats_key x = stats_key s" by simp
    with x have "y = x\<lparr>avg_price := avg_price s, sample_count := sample_count s,
                        min_price := min_price s, max_price := max_price s\<rparr>" by simp
    then show ?thesis by (simp only: aggregates_update)
  qed
  from 1 2 show ?thesis unfolding holds_stats_def u by blast
qed

lemma upsert_stats_keeps:
  assumes "holds_stats k v tbl" and "stats_key s \<noteq> k"
  shows "holds_stats k v (upsert_stats tbl s)"
proof (cases "list_ex (\<lambda>x. stats_key x = stats_key s) tbl")
  case False
  then show ?thesis using assms by (auto simp: holds_stats_def upsert_stats_def)
next
  case True
  let ?f = "\<lambda>x. if stats_key x = stats_key s
                  then x\<lparr>avg_price := avg_price s, sample_count := sample_count s,
                         min_price := min_price s, max_price := max_price s\<rparr>
                  else x"
  have u: "upsert_stats tbl s = map ?f tbl" using True by (simp add: upsert_stats_def)
  have k: "stats_key (?f x) = stats_key x" for x by (simp add: stats_key_update)
  have 1: "k \<in> set (map stats_key (map ?f tbl))"
    using assms(1) by (simp add: comp_def k holds_stats_def)
  have 2: "aggregates y = v" if "y \<in> set (map ?f tbl)" "stats_key y = k" for y
  proof -
    from that(1) obtain x where x: "y = ?f x" "x \<in> set tbl" by (auto simp only: set_map)
    with that(2) k[of x] have kx: "stats_key x = k" by simp
    with assms(2) x(1) have "y = x" by simp
    with kx x(2) assms(1) show ?thesis by (simp add: holds_stats_def)
  qed
  from 1 2 show ?thesis unfolding holds_stats_def u by blast
qed

lemma foldl_upsert_keeps:
  "holds_stats k v tbl \<Longrightarrow> \<forall>s\<in>set xs. stats_key s \<noteq> k \<Longrightarrow>
   holds_stats k v (foldl upsert_stats tbl xs)"
  by (induction xs arbitrary: tbl) (simp_all add: upsert_stats_keeps)

lemma foldl_upsert_sets:
  "s \<in> set xs \<Longrightarrow> distinct (map stats_key xs) \<Longrightarrow>
   holds_stats (stats_key s) (aggregates s) (foldl upsert_stats tbl xs)"
proof (induction xs arbitrary: tbl)
  case Nil
  then show ?case by simp
next
  case (Cons x xs)
  show ?case
  proof (cases "x = s")
    case True
    from Cons.prems(2) True have "stats_key s \<notin> stats_key ` set xs" by simp
    then have "\<forall>y\<in>set xs. stats_key y \<noteq> stats_key s" by (metis imageI)
    with foldl_upsert_keeps[OF upsert_stats_sets[of s tbl]] True show ?thesis by simp
  next
    case False
    with Cons show ?thesis by simp
  qed
qed

lemma in_window_has_key: "filter (in_window now) (filter (\<lambda>r. sp_canonical_key r \<noteq> None) tbl)
   = filter (in_window now) tbl"
  by (induction tbl) (auto simp: in_window_def)

lemma floor_half: "\<lfloor>(of_int k :: rat) + 1 / 2\<rfloor> = k"
  by (rule floor_unique) simp_all

lemma round2_of_int: "round2 (of_int n) = of_int n"
proof -
  have "\<bar>(of_int n :: rat)\<bar> * 100 + 1 / 2 = of_int (\<bar>n\<bar> * 100) + 1 / 2" by simp
  then have "\<lfloor>\<bar>(of_int n :: rat)\<bar> * 100 + 1 / 2\<rfloor> = \<bar>n\<bar> * 100" by (simp only: floor_half)
  then show ?thesis by (cases "n < 0") (simp_all add: round2_def)
qed

lemma stats_of_10_12_11:
  assumes "mset ps = {#10, 12, 11 :: rat#}"
  shows "round2 (sum_list ps / of_nat (length ps)) = 11" and "length ps = 3"
    and "Min (set ps) = 10" and "Max (set ps) = 12"
proof -
  have "sum_list ps = sum_mset (mset ps)" by (simp add: sum_mset_sum_list)
  then have s: "sum_list ps = 33" by (simp add: assms)
  have "length ps = size (mset ps)" by simp
  then show l: "length ps = 3" by (simp add: assms)
  have "set ps = set_mset (mset ps)" by simp
  then have e: "set ps = {10, 12, 11}" by (simp add: assms)
  show "Min (set ps) = 10" and "Max (set ps) = 12" unfolding e by simp_all
  show "round2 (sum_list ps / of_nat (length ps)) = 11"
    unfolding s l using round2_of_int[of 11] by simp
qed

text \<open>
  Claim C8. When the rows of a group (the rows with a canonical key in the window that
  share day, chain and key) have the prices 10, 12 and 11, the statement leaves the
  statistics with the average 11.00, the count 3, the minimum 10 and the maximum 12 for
  the key of the group; and rows without a canonical key play no part: they are in no
  group, and the statement selects the same with and without them.
\<close>

theorem daily_stats_of_10_12_11:
  assumes "mset (map sp_price (filter (\<lambda>r. group_key r = k) (filter (in_window now) tbl)))
             = {#10, 12, 11#}"
  shows "k \<in> set (map stats_key (aggregate_main False now tbl stats)) \<and>
         (\<forall>s\<in>set (aggregate_main False now tbl stats).
            stats_key s = k \<longrightarrow>
              avg_price s = 11 \<and> sample_count s = 3 \<and> min_price s = 10 \<and> max_price s = 12) \<and>
         (\<forall>r\<in>set (filter (in_window now) tbl). sp_canonical_key r \<noteq> None) \<and>
         daily_select now (filter (\<lambda>r. sp_canonical_key r \<noteq> None) tbl) = daily_select now tbl"
proof -
  let ?grp = "filter (\<lambda>r. group_key r = k) (filter (in_window now) tbl)"
  let ?s = "group_stats k ?grp"
  have "?grp \<noteq> []"
  proof
    assume "?grp = []"
    then have "mset (map sp_price ?grp) = {#}" by (simp only: list.map mset.simps)
    with assms show False by simp
  qed
  then obtain r where "r \<in> set ?grp" by (meson last_in_set)
  then have "k \<in> set (map group_key (filter (in_window now) tbl))" by auto
  then have m: "?s \<in> set (daily_select now tbl)" by (rule daily_select_member)
  have d: "distinct (map stats_key (daily_select now tbl))"
    by (simp add: daily_select_keys)
  from foldl_upsert_sets[OF m d, of stats]
  have h: "holds_stats k (aggregates ?s) (aggregate_main False now tbl stats)"
    by (simp add: stats_key_group_stats aggregate_main_def aggregate_sql_def)
  have a: "aggregates ?s = (11, 3, 10, 12)"
    unfolding aggregates_group_stats using stats_of_10_12_11[OF assms] by simp
  have 1: "k \<in> set (map stats_key (aggregate_main False now tbl stats))"
    using h unfolding holds_stats_def by blast
  have 2: "\<forall>s\<in>set (aggregate_main False now tbl stats).
            stats_key s = k \<longrightarrow>
              avg_price s = 11 \<and> sample_count s = 3 \<and> min_price s = 10 \<and> max_price s = 12"
    using h unfolding holds_stats_def a by (simp add: aggregates_def)
  have 3: "\<forall>r\<in>set (filter (in_window now) tbl). sp_canonical_key r \<noteq> None"
    by (simp add: in_window_def)
  have 4: "daily_select now (filter (\<lambda>r. sp_canonical_key r \<noteq> None) tbl) = daily_select now tbl"
    by (simp only: daily_select_def in_window_has_key)
  from 1 2 3 4 show ?thesis by blast
qed

lemmas aggregator_defs = sample_prices_def stored_def in_window_def effective_time_def
  group_key_def day_of_def

text \<open>A table with five rows: three of one day with the key \<open>milk\<close> and the prices 10, 12
  and 11, one without a key, and one that is older than the window.\<close>

theorem daily_stats_of_10_12_11_witness:
  "mset (map sp_price (filter (\<lambda>r. group_key r = (20467, js ''yohananof'', js ''milk''))
           (filter (in_window 1768400000) sample_prices))) = {#10, 12, 11#} \<and>
   (20467, js ''yohananof'', js ''milk'')
      \<in> set (map stats_key (aggregate_main False 1768400000 sample_prices [])) \<and>
   map aggregates (aggregate_main False 1768400000 sample_prices []) = [(11, 3, 10, 12)]"
proof -
  let ?k = "(20467 :: int, js ''yohananof'', js ''milk'')"
  have w: "filter (in_window 1768400000) sample_prices =
             [stored (Some (js ''milk'')) 10 (Some 1768359600) 1768400000,
              stored (Some (js ''milk'')) 12 None 1768370000,
              stored (Some (js ''milk'')) 11 (Some 1768380000) 1768400000]"
    by (simp add: aggregator_defs)
  have g: "map group_key (filter (in_window 1768400000) sample_prices) = [?k, ?k, ?k]"
    unfolding w by (simp add: aggregator_defs)
  have f: "filter (\<lambda>r. group_key r = ?k) (filter (in_window 1768400000) sample_prices)
             = filter (in_window 1768400000) sample_prices"
    unfolding w by (simp add: aggregator_defs)
  have h: "mset (map sp_price (filter (\<lambda>r. group_key r = ?k)
             (filter (in_window 1768400000) sample_prices))) = {#10, 12, 11#}"
    by (simp only: f) (simp add: w stored_def)
  have sel: "daily_select 1768400000 sample_prices =
               [group_stats ?k (filter (in_window 1768400000) sample_prices)]"
    by (simp add: daily_select_def Let_def g f del: filter_filter)
  have agg: "aggregates (group_stats ?k (filter (in_window 1768400000) sample_prices)) = (11, 3, 10, 12)"
    unfolding aggregates_group_stats using stats_of_10_12_11[OF h[unfolded f]] by simp
  have run: "map aggregates (aggregate_main False 1768400000 sample_prices []) = [(11, 3, 10, 12)]"
    by (simp add: aggregate_main_def aggregate_sql_def sel upsert_stats_def agg)
  from daily_stats_of_10_12_11 [OF h, of "[]"] h run show ?thesis by blast
qed

section \<open>The matcher and the languages of the grammars\<close>

lemma match_lit_SomeD:
  "match_lit l s = Some r \<Longrightarrow> \<exists>u. s = u @ r \<and> map upper u = map upper l"
proof (induction l s rule: match_lit.induct)
  case (1 s)
  then show ?case by simp
next
  case (2 p ps)
  then show ?case by simp
next
  case (3 p ps c cs)
  then obtain u where "cs = u @ r" "map upper u = map upper ps" "upper c = upper p"
    by (auto split: if_splits)
  then show ?case by (intro exI[of _ "c # u"]) simp
qed

lemma match_lit_append:
  "map upper u = map upper l \<Longrightarrow> match_lit l (u @ r) = Some r"
proof (induction l arbitrary: u)
  case Nil
  then show ?case by simp
next
  case (Cons p ps)
  then obtain c cs where "u = c # cs" "upper c = upper p" "map upper cs = map upper ps"
    by (cases u) auto
  with Cons.IH show ?case by simp
qed

text \<open>Soundness: what the matcher accepts is an instance of the pattern.\<close>

lemma match_seq_sound:
  "match_seq p caps s = Some (caps', r) \<Longrightarrow>
   \<exists>w new. s = w @ r \<and> caps' = caps @ new \<and> instance_of p w new"
proof (induction p caps s rule: match_seq.induct)
  case (1 caps s)
  then show ?case by simp
next
  case (2 l as caps s)
  from "2.prems" obtain r1 where m: "match_lit l s = Some r1" and k: "match_seq as caps r1 = Some (caps', r)"
    by (auto split: option.splits)
  from match_lit_SomeD[OF m] obtain u where u: "s = u @ r1" "map upper u = map upper l" by blast
  from "2.IH"[OF m k] obtain w new where w: "r1 = w @ r" "caps' = caps @ new" "instance_of as w new"
    by blast
  have "instance_of (Lit l # as) (u @ w) new" using u(2) w(3) by auto
  with u(1) w(1,2) show ?case by (intro exI[of _ "u @ w"] exI[of _ new]) simp
next
  case (3 lo hi as caps s)
  let ?u = "takeWhile is_digit s"
  from "3.prems" have ok: "run_ok lo hi ?u" and k: "match_seq as caps (dropWhile is_digit s) = Some (caps', r)"
    by (auto split: if_splits)
  from "3.IH"[OF ok k] obtain w new
    where w: "dropWhile is_digit s = w @ r" "caps' = caps @ new" "instance_of as w new" by blast
  have d: "list_all is_digit ?u" by (rule list_all_takeWhile)
  have "instance_of (Digits lo hi # as) (?u @ w) new" using ok d w(3) by auto
  moreover have "s = (?u @ w) @ r" using w(1) takeWhile_dropWhile_id[of is_digit s] by simp
  ultimately show ?case using w(2) by blast
next
  case (4 lo hi as caps s)
  let ?u = "takeWhile is_digit s"
  from "4.prems" have ok: "run_ok lo hi ?u"
    and k: "match_seq as (caps @ [?u]) (dropWhile is_digit s) = Some (caps', r)"
    by (auto split: if_splits)
  from "4.IH"[OF ok k] obtain w new
    where w: "dropWhile is_digit s = w @ r" "caps' = (caps @ [?u]) @ new" "instance_of as w new" by blast
  have d: "list_all is_digit ?u" by (rule list_all_takeWhile)
  have "instance_of (Group lo hi # as) (?u @ w) (?u # new)" using ok d w(3) by auto
  moreover have "s = (?u @ w) @ r" using w(1) takeWhile_dropWhile_id[of is_digit s] by simp
  moreover have "caps' = caps @ (?u # new)" using w(2) by simp
  ultimately show ?case by blast
qed

text \<open>Completeness for the guarded patterns: on such a pattern the matcher accepts every
  instance, whatever follows it.\<close>

lemma upper_not_digit: "upper a = upper c \<Longrightarrow> \<not> is_digit c \<Longrightarrow> \<not> is_digit a"
  by (auto simp: upper_def is_digit_def split: if_splits) unat_arith+


lemma digit_run_append:
  assumes "list_all is_digit u" and "v = [] \<or> \<not> is_digit (hd v)"
  shows "takeWhile is_digit (u @ v) = u" and "dropWhile is_digit (u @ v) = v"
proof -
  have t: "takeWhile is_digit v = []" using assms(2) by (cases v) auto
  have d: "dropWhile is_digit v = v" using assms(2) by (cases v) auto
  from assms(1) show "takeWhile is_digit (u @ v) = u"
    by (simp add: takeWhile_append2 t list_all_iff)
  from assms(1) show "dropWhile is_digit (u @ v) = v"
    by (simp add: dropWhile_append2 d list_all_iff)
qed

lemma instance_of_Lit_hd:
  assumes "instance_of (Lit (c # l) # as) v new" and "\<not> is_digit c"
  shows "v @ r = [] \<or> \<not> is_digit (hd (v @ r))"
proof -
  from assms(1) have "\<exists>u v'. v = u @ v' \<and> map upper u = map upper (c # l)"
    by (simp only: instance_of.simps) blast
  then obtain u v' where "v = u @ v'" "map upper u = map upper (c # l)" by blast
  then obtain a u' where "u = a # u'" "upper a = upper c" by (cases u) auto
  with \<open>v = u @ v'\<close> upper_not_digit[OF _ assms(2)] show ?thesis by simp
qed

lemma guarded_DigitsD:
  assumes "guarded (Digits lo hi # as)"
  shows "\<exists>c l bs. as = Lit (c # l) # bs \<and> \<not> is_digit c \<and> guarded as"
  using assms by (rule guarded.elims(2)) auto

lemma guarded_GroupD:
  assumes "guarded (Group lo hi # as)"
  shows "\<exists>c l bs. as = Lit (c # l) # bs \<and> \<not> is_digit c \<and> guarded as"
  using assms by (rule guarded.elims(2)) auto

lemma match_seq_complete:
  "guarded p \<Longrightarrow> instance_of p w new \<Longrightarrow> match_seq p caps (w @ r) = Some (caps @ new, r)"
proof (induction p arbitrary: w new caps)
  case Nil
  then show ?case by simp
next
  case (Cons a as)
  show ?case
  proof (cases a)
    case (Lit l)
    with Cons.prems obtain u v where u: "w = u @ v" "map upper u = map upper l" "instance_of as v new"
      and g: "guarded as" by auto
    from Cons.IH[OF g u(3)] match_lit_append[OF u(2)] Lit u(1) show ?thesis by simp
  next
    case (Digits lo hi)
    with Cons.prems guarded_DigitsD[of lo hi as] obtain c l bs
      where as: "as = Lit (c # l) # bs" and c: "\<not> is_digit c" and g: "guarded as"
      by blast
    from Cons.prems Digits obtain u v where u: "w = u @ v" "list_all is_digit u" "run_ok lo hi u"
      "instance_of as v new" by auto
    from instance_of_Lit_hd[OF u(4)[unfolded as] c, of r]
    have h: "v @ r = [] \<or> \<not> is_digit (hd (v @ r))" .
    from digit_run_append[OF u(2) h] Cons.IH[OF g u(4)] u(1,3) Digits show ?thesis by simp
  next
    case (Group lo hi)
    with Cons.prems guarded_GroupD[of lo hi as] obtain c l bs
      where as: "as = Lit (c # l) # bs" and c: "\<not> is_digit c" and g: "guarded as"
      by blast
    from Cons.prems Group obtain u v cs where u: "w = u @ v" "list_all is_digit u" "run_ok lo hi u"
      "new = u # cs" "instance_of as v cs" by auto
    from instance_of_Lit_hd[OF u(5)[unfolded as] c, of r]
    have h: "v @ r = [] \<or> \<not> is_digit (hd (v @ r))" .
    from digit_run_append[OF u(2) h] Cons.IH[OF g u(5), of "caps @ [u]"] u(1,3,4) Group
    show ?thesis by simp
  qed
qed

lemma find_first_hit: "m s = Some y \<Longrightarrow> find_first m s = Some y"
  by (cases s) simp_all

lemma find_first_append: "find_first m s \<noteq> None \<Longrightarrow> find_first m (pre @ s) \<noteq> None"
  by (induction pre) (auto split: option.splits)

lemma find_first_suffix: "find_first m s = Some y \<Longrightarrow> \<exists>pre t. s = pre @ t \<and> m t = Some y"
proof (induction s)
  case Nil
  then show ?case by simp
next
  case (Cons c cs)
  show ?case
  proof (cases "m (c # cs)")
    case (Some z)
    with Cons.prems have "m (c # cs) = Some y" by simp
    then show ?thesis by (intro exI[of _ "[]"] exI[of _ "c # cs"]) simp
  next
    case None
    with Cons obtain pre t where "cs = pre @ t" "m t = Some y" by auto
    then show ?thesis by (intro exI[of _ "c # pre"] exI[of _ t]) simp
  qed
qed

lemma search_sound: "search p x = Some caps \<Longrightarrow> contains_instance p x caps"
proof -
  assume "search p x = Some caps"
  then obtain pre t where t: "x = pre @ t" "map_option fst (match_seq p [] t) = Some caps"
    unfolding search_def by (auto dest: find_first_suffix)
  then obtain r where "match_seq p [] t = Some (caps, r)" by auto
  from match_seq_sound[OF this] obtain w where "t = w @ r" "instance_of p w caps" by auto
  with t(1) show ?thesis unfolding contains_instance_def by blast
qed

lemma search_complete:
  assumes "guarded p" and "contains_instance p x caps"
  shows "search p x \<noteq> None"
proof -
  from assms(2) obtain pre w post where x: "x = pre @ w @ post" "instance_of p w caps"
    unfolding contains_instance_def by blast
  from match_seq_complete[OF assms(1) x(2), of "[]" post]
  have "map_option fst (match_seq p [] (w @ post)) = Some caps" by simp
  from find_first_hit[of "\<lambda>t. map_option fst (match_seq p [] t)", OF this]
  have "find_first (\<lambda>t. map_option fst (match_seq p [] t)) (w @ post) \<noteq> None" by simp
  from find_first_append[OF this, of pre] x(1) show ?thesis by (simp add: search_def)
qed

lemma first_capture_None_iff:
  "first_capture gs x = None \<longleftrightarrow> (\<forall>g\<in>set gs. search g x = None)"
  by (induction gs) (auto split: option.splits)

lemma first_capture_SomeD:
  "first_capture gs x = Some m1 \<Longrightarrow> \<exists>g\<in>set gs. \<exists>caps. search g x = Some caps \<and> caps ! 0 = m1"
  by (induction gs) (auto split: option.splits)

lemma grammars_guarded:
  "\<forall>g\<in>set yohananof_grammars. guarded g" "\<forall>g\<in>set shufersal_grammars. guarded g"
  by (simp_all add: yohananof_grammars_def shufersal_grammars_def js_def is_digit_def)

text \<open>The resolver finds nothing exactly when the input holds no instance of a grammar;
  what it finds are the store digits of an instance.\<close>

lemma first_capture_None_language:
  assumes "\<forall>g\<in>set gs. guarded g"
  shows "first_capture gs x = None \<longleftrightarrow> \<not> (\<exists>g\<in>set gs. \<exists>caps. contains_instance g x caps)"
proof
  assume n: "first_capture gs x = None"
  show "\<not> (\<exists>g\<in>set gs. \<exists>caps. contains_instance g x caps)"
  proof
    assume "\<exists>g\<in>set gs. \<exists>caps. contains_instance g x caps"
    then obtain g caps where g: "g \<in> set gs" "contains_instance g x caps" by blast
    with assms search_complete have "search g x \<noteq> None" by blast
    with n g(1) show False by (simp add: first_capture_None_iff)
  qed
next
  assume a: "\<not> (\<exists>g\<in>set gs. \<exists>caps. contains_instance g x caps)"
  show "first_capture gs x = None"
  proof (rule ccontr)
    assume "first_capture gs x \<noteq> None"
    then obtain m1 where "first_capture gs x = Some m1" by auto
    from first_capture_SomeD[OF this] obtain g caps where "g \<in> set gs" "search g x = Some caps" by blast
    with search_sound a show False by blast
  qed
qed

lemma first_capture_Some_language:
  assumes "first_capture gs x = Some m1" and "\<forall>g\<in>set gs. group_bounds g = [(1, Some 4)]"
  shows "\<exists>g\<in>set gs. contains_instance g x [m1]"
proof -
  from first_capture_SomeD[OF assms(1)] obtain g caps
    where g: "g \<in> set gs" "search g x = Some caps" "caps ! 0 = m1" by blast
  from search_single_group[OF g(2), of 1 "Some 4"] assms(2) g(1) obtain c where "caps = [c]" by auto
  with g(3) have "caps = [m1]" by simp
  with search_sound[OF g(2)] g(1) show ?thesis by blast
qed


text \<open>
  Claim C6, as amended. For the grammars of either chain: the resolver returns null
  exactly when the input holds no instance of a grammar; when a grammar matches, the
  resolver returns the store digits captured by the first grammar that matches, which are
  the store digits of an instance that the input holds, padded with zeros on the left to
  width three. The capture has one to four digits, so the result is a string of three or
  of four digits.
\<close>

theorem extractStoreId_padded_capture:
  assumes "grammars = yohananof_grammars \<or> grammars = shufersal_grammars"
  shows "(extractStoreIdFromFilename grammars x = None \<longleftrightarrow>
            \<not> (\<exists>g\<in>set grammars. \<exists>caps. contains_instance g x caps)) \<and>
         (\<forall>m1. first_capture grammars x = Some m1 \<longrightarrow>
            (\<exists>g\<in>set grammars. contains_instance g x [m1]) \<and>
            extractStoreIdFromFilename grammars x = Some (replicate (3 - length m1) 0x30 @ m1) \<and>
            1 \<le> length m1 \<and> length m1 \<le> 4 \<and> list_all is_digit m1 \<and>
            length (replicate (3 - length m1) 0x30 @ m1) = max 3 (length m1) \<and>
            list_all is_digit (replicate (3 - length m1) (0x30 :: jschar) @ m1))"
proof -
  have g: "\<forall>g\<in>set grammars. guarded g" and b: "\<forall>g\<in>set grammars. group_bounds g = [(1, Some 4)]"
    using assms grammars_guarded grammars_single_group by blast+
  have "extractStoreIdFromFilename grammars x = None \<longleftrightarrow> first_capture grammars x = None"
    by (simp add: extractStoreIdFromFilename_def split: option.splits)
  then have 1: "extractStoreIdFromFilename grammars x = None \<longleftrightarrow>
                  \<not> (\<exists>g\<in>set grammars. \<exists>caps. contains_instance g x caps)"
    by (simp only: first_capture_None_language[OF g])
  have 2: "\<exists>g\<in>set grammars. contains_instance g x [m1]" if "first_capture grammars x = Some m1" for m1
    using that b by (rule first_capture_Some_language)
  from 1 2 resolver_pads_capture[OF assms, of x] show ?thesis by blast
qed

text \<open>The file name of the specification: the second grammar of Yohananof captures \<open>009\<close>.\<close>

theorem extractStoreId_padded_capture_witness:
  "first_capture yohananof_grammars (js ''PriceFull7290803800003-009-202601140501.gz'') = Some (js ''009'') \<and>
   extractStoreIdFromFilename_yohananof (js ''PriceFull7290803800003-009-202601140501.gz'') = Some (js ''009'') \<and>
   first_capture shufersal_grammars (js ''Price7290027600007-5-202601140501.gz'') = Some (js ''5'') \<and>
   extractStoreIdFromFilename_shufersal (js ''Price7290027600007-5-202601140501.gz'') = Some (js ''005'') \<and>
   first_capture yohananof_grammars (js ''Stores7290803800003-000-202601140501.xml'') = None \<and>
   extractStoreIdFromFilename_yohananof (js ''Stores7290803800003-000-202601140501.xml'') = None"
proof -
  have a: "first_capture yohananof_grammars (js ''PriceFull7290803800003-009-202601140501.gz'') = Some (js ''009'')"
    by (simp add: resolver_defs)
  have b: "first_capture shufersal_grammars (js ''Price7290027600007-5-202601140501.gz'') = Some (js ''5'')"
    by (simp add: resolver_defs)
  have c: "first_capture yohananof_grammars (js ''Stores7290803800003-000-202601140501.xml'') = None"
    by (simp add: resolver_defs)
  have l: "replicate (3 - length (js ''009'')) (0x30 :: jschar) @ js ''009'' = js ''009''"
          "replicate (3 - length (js ''5'')) (0x30 :: jschar) @ js ''5'' = js ''005''"
    by (simp_all add: js_def numeral_2_eq_2)
  have n: "extractStoreIdFromFilename yohananof_grammars (js ''Stores7290803800003-000-202601140501.xml'') = None"
    by (simp add: extractStoreIdFromFilename_def c)
  from extractStoreId_padded_capture [of yohananof_grammars "js ''PriceFull7290803800003-009-202601140501.gz''"] a l
  have 1: "extractStoreIdFromFilename yohananof_grammars (js ''PriceFull7290803800003-009-202601140501.gz'')
             = Some (js ''009'')"
    by simp
  from extractStoreId_padded_capture [of shufersal_grammars "js ''Price7290027600007-5-202601140501.gz''"] b l
  have 2: "extractStoreIdFromFilename shufersal_grammars (js ''Price7290027600007-5-202601140501.gz'')
             = Some (js ''005'')"
    by simp
  from a b c n 1 2 show ?thesis
    by (simp add: extractStoreIdFromFilename_yohananof_def extractStoreIdFromFilename_shufersal_def)
qed

end
